theory Spec2Isabelle
  imports Complex_Main
begin

section \<open>The galaxy generator of 18-galaxy-generator/src/script.js\<close>

text \<open>
  The script keeps three module-level handles (\<open>geometry\<close>, \<open>material\<close>, \<open>points\<close>) and one
  function, \<open>generateGalaxy\<close>, which the debug panel calls after every committed edit.
  The function first disposes and detaches the previous galaxy, then allocates two typed
  arrays of \<open>count * 3\<close> numbers, fills them in one loop over the particle index and wraps
  them in a new drawable that it adds to the scene.
\<close>

subsection \<open>JavaScript numbers\<close>

text \<open>
  A JavaScript number is an IEEE double. The embedding takes a finite double as the real
  number it stands for, and the values that are no real number (\<open>NaN\<close>, \<open>Infinity\<close>,
  \<open>-Infinity\<close>) are all \<open>None\<close>. Of double arithmetic it keeps the range and abstracts the
  rounding away: the result of an operation is the exact real result, unless its magnitude
  reaches \<open>double_overflow\<close>, the least magnitude that rounds to an infinity (half an ulp
  above the largest double). In the arithmetic of this script a non-finite operand
  always gives a non-finite result, so \<open>None\<close> is absorbing.
\<close>

type_synonym jsnum = "real option"

definition double_overflow :: real where
  "double_overflow = 2 ^ 1024 - 2 ^ 970"

definition js_double :: "real \<Rightarrow> jsnum" where
  "js_double x = (if double_overflow \<le> \<bar>x\<bar> then None else Some x)"

definition js_lift2 :: "(real \<Rightarrow> real \<Rightarrow> real) \<Rightarrow> jsnum \<Rightarrow> jsnum \<Rightarrow> jsnum" where
  "js_lift2 f a b =
     (case a of None \<Rightarrow> None
      | Some x \<Rightarrow> (case b of None \<Rightarrow> None | Some y \<Rightarrow> js_double (f x y)))"

definition js_mul :: "jsnum \<Rightarrow> jsnum \<Rightarrow> jsnum" where
  "js_mul = js_lift2 (\<lambda>x y. x * y)"

definition js_add :: "jsnum \<Rightarrow> jsnum \<Rightarrow> jsnum" where
  "js_add = js_lift2 (\<lambda>x y. x + y)"

definition js_sub :: "jsnum \<Rightarrow> jsnum \<Rightarrow> jsnum" where
  "js_sub = js_lift2 (\<lambda>x y. x - y)"

text \<open>\<open>a / b\<close> with a finite divisor: dividing by zero gives \<open>NaN\<close> or an infinity.\<close>

definition js_div :: "jsnum \<Rightarrow> real \<Rightarrow> jsnum" where
  "js_div a b =
     (case a of None \<Rightarrow> None
      | Some x \<Rightarrow> (if b = 0 then None else js_double (x / b)))"

text \<open>
  \<open>a % b\<close> on integers: the result takes the sign of the dividend, and a zero divisor
  gives \<open>NaN\<close>.
\<close>

definition js_rem :: "int \<Rightarrow> int \<Rightarrow> jsnum" where
  "js_rem a b =
     (if b = 0 then None else Some (real_of_int (sgn a * (\<bar>a\<bar> mod \<bar>b\<bar>))))"

definition Math_cos :: "jsnum \<Rightarrow> jsnum" where
  "Math_cos a = map_option cos a"

definition Math_sin :: "jsnum \<Rightarrow> jsnum" where
  "Math_sin a = map_option sin a"

text \<open>
  \<open>Math.pow(x, y)\<close> on finite arguments: any base to the power 0 is 1, zero to a negative
  power is \<open>Infinity\<close>, and a negative base has a real power only for an integer exponent.
\<close>

definition Math_pow :: "real \<Rightarrow> real \<Rightarrow> jsnum" where
  "Math_pow x y =
     (if y = 0 then Some 1
      else if x = 0 then (if 0 < y then Some 0 else None)
      else if 0 < x then js_double (x powr y)
      else if real_of_int \<lfloor>y\<rfloor> = y
        then js_double ((if even \<lfloor>y\<rfloor> then 1 else - 1) * ((- x) powr y))
      else None)"

text \<open>
  \<open>Math.random()\<close> is the host's random source. It is a parameter of the model: \<open>rnd k\<close> is
  the value of the \<open>k\<close>-th call, and the number of calls made so far is threaded through
  the loop.
\<close>

type_synonym random_source = "nat \<Rightarrow> real"

definition Math_random :: "random_source \<Rightarrow> nat \<Rightarrow> real \<times> nat" where
  "Math_random rnd k = (rnd k, Suc k)"

subsection \<open>Parameters\<close>

text \<open>
  \<open>THREE.Color\<close> is a class of the three.js library: an object with three numeric
  components. The script builds one from each of the two colour parameters; the model
  takes the two colours as already built. \<open>psize\<close> is the field \<open>size\<close> of the script's
  parameter object.
\<close>

record Color =
  r :: real
  g :: real
  b :: real

record parameters =
  count :: int
  psize :: real
  radius :: real
  branches :: int
  spin :: real
  randomness :: real
  randomnessPower :: real
  insideColor :: Color
  outsideColor :: Color

subsection \<open>Typed arrays\<close>

datatype error = RangeError | TypeError

type_synonym Float32Array = "jsnum list"

text \<open>
  An element of a \<open>Float32Array\<close> is a single-precision number, and a store converts the
  double to the nearest one, a tie going to the even significand. A single has 24 bits
  of significand; its exponent is at least \<open>-126\<close>, below which the spacing stays
  \<open>2 powi - 149\<close>. A magnitude that reaches \<open>float32_overflow\<close>, half an ulp above the
  largest single, is stored as an infinity, and \<open>NaN\<close> is stored as \<open>NaN\<close>.
\<close>

definition float32_overflow :: real where
  "float32_overflow = 2 ^ 128 - 2 ^ 103"

definition round_half_even :: "real \<Rightarrow> int" where
  "round_half_even q =
     (let n = \<lfloor>q\<rfloor>
      in if q - real_of_int n < 1 / 2 then n
         else if 1 / 2 < q - real_of_int n then n + 1
         else if even n then n else n + 1)"

definition float32_exponent :: "real \<Rightarrow> int" where
  "float32_exponent x = max (- 126) \<lfloor>log 2 \<bar>x\<bar>\<rfloor>"

definition float32_round :: "real \<Rightarrow> jsnum" where
  "float32_round x =
     (if float32_overflow \<le> \<bar>x\<bar> then None
      else if x = 0 then Some 0
      else (let ulp = 2 powi (float32_exponent x - 23)
            in Some (real_of_int (round_half_even (x / ulp)) * ulp)))"

definition float32_store :: "jsnum \<Rightarrow> jsnum" where
  "float32_store a = (case a of None \<Rightarrow> None | Some x \<Rightarrow> float32_round x)"

text \<open>
  \<open>new Float32Array(n)\<close> gives \<open>n\<close> zeros, and throws a \<open>RangeError\<close> for a negative length
  and for a length the host cannot allocate; \<open>limit\<close> is the largest length it can.
\<close>

definition new_Float32Array :: "nat \<Rightarrow> int \<Rightarrow> error + Float32Array" where
  "new_Float32Array limit n =
     (if n < 0 \<or> int limit < n then Inl RangeError
      else Inr (replicate (nat n) (Some 0)))"

subsection \<open>One particle\<close>

text \<open>Lines 149-150: the arm of particle \<open>i\<close>.\<close>

definition branchAngle :: "parameters \<Rightarrow> nat \<Rightarrow> jsnum" where
  "branchAngle P i =
     js_mul (js_mul (js_div (js_rem (int i) (branches P)) (real_of_int (branches P)))
                    (Some pi))
            (Some 2)"

text \<open>
  Lines 169-183: one scatter term. It draws twice, first the magnitude, then the sign.
\<close>

definition random_offset :: "parameters \<Rightarrow> random_source \<Rightarrow> nat \<Rightarrow> jsnum \<Rightarrow> jsnum \<times> nat" where
  "random_offset P rnd k radius_i =
     (let (u, k1) = Math_random rnd k;
          (v, k2) = Math_random rnd k1
      in (js_mul (js_mul (js_mul (Math_pow u (randomnessPower P))
                                 (Some (if v < 0.5 then 1 else - 1)))
                         (Some (randomness P)))
                 radius_i,
          k2))"

text \<open>\<open>Color.lerp\<close> of three.js, on one component: \<open>this.r += (color.r - this.r) * alpha\<close>.\<close>

definition lerp1 :: "real \<Rightarrow> real \<Rightarrow> jsnum \<Rightarrow> jsnum" where
  "lerp1 this_c color_c alpha = js_add (Some this_c) (js_mul (js_sub (Some color_c) (Some this_c)) alpha)"

text \<open>
  Lines 117-232: the body of the loop, for particle \<open>i\<close>. \<open>positions\<close> and \<open>colors\<close> are
  typed arrays, so each of the six assignments is a single-precision store.
\<close>

definition loop_body ::
  "parameters \<Rightarrow> random_source \<Rightarrow> nat \<Rightarrow> Float32Array \<times> Float32Array \<times> nat
     \<Rightarrow> Float32Array \<times> Float32Array \<times> nat" where
  "loop_body P rnd i st =
     (case st of (positions, colors, k) \<Rightarrow>
        let i3 = i * 3;
            (u, k1) = Math_random rnd k;
            radius_i = js_mul (Some u) (Some (radius P));
            spinAngle = js_mul radius_i (Some (spin P));
            branchAngle_i = branchAngle P i;
            (randomX, k3) = random_offset P rnd k1 radius_i;
            (randomY, k5) = random_offset P rnd k3 radius_i;
            (randomZ, k7) = random_offset P rnd k5 radius_i;
            positions1 = positions[i3 := float32_store
              (js_add (js_mul (Math_cos (js_add branchAngle_i spinAngle)) radius_i) randomX)];
            positions2 = positions1[i3 + 1 := float32_store randomY];
            positions3 = positions2[i3 + 2 := float32_store
              (js_add (js_mul (Math_sin (js_add branchAngle_i spinAngle)) radius_i) randomZ)];
            alpha = js_div radius_i (radius P);
            colors1 = colors[i3 := float32_store
              (lerp1 (r (insideColor P)) (r (outsideColor P)) alpha)];
            colors2 = colors1[i3 + 1 := float32_store
              (lerp1 (g (insideColor P)) (g (outsideColor P)) alpha)];
            colors3 = colors2[i3 + 2 := float32_store
              (lerp1 (b (insideColor P)) (b (outsideColor P)) alpha)]
        in (positions3, colors3, k7))"

text \<open>Line 110: \<open>for (let i = 0; i < parameters.count; i++)\<close>.\<close>

function particle_loop ::
  "parameters \<Rightarrow> random_source \<Rightarrow> nat \<Rightarrow> Float32Array \<times> Float32Array \<times> nat
     \<Rightarrow> Float32Array \<times> Float32Array \<times> nat" where
  "particle_loop P rnd i st =
     (if int i < count P then particle_loop P rnd (Suc i) (loop_body P rnd i st) else st)"
  by pat_completeness auto
termination
  by (relation "measure (\<lambda>(P, rnd, i, st). nat (count P) - i)") auto

text \<open>
  Lines 96-233: the two allocations and the loop. \<open>k\<close> is the number of \<open>Math.random()\<close>
  calls made before; the result holds the number made after.
\<close>

definition generate ::
  "nat \<Rightarrow> parameters \<Rightarrow> random_source \<Rightarrow> nat \<Rightarrow> error + (Float32Array \<times> Float32Array \<times> nat)" where
  "generate limit P rnd k =
     (case new_Float32Array limit (count P * 3) of
        Inl e \<Rightarrow> Inl e
      | Inr positions \<Rightarrow>
          (case new_Float32Array limit (count P * 3) of
             Inl e \<Rightarrow> Inl e
           | Inr colors \<Rightarrow> Inr (particle_loop P rnd 0 (positions, colors, k))))"

subsection \<open>The scene and the module-level handles\<close>

text \<open>
  The objects of three.js that the script creates live in a store, addressed by
  reference, because the drawable shares its geometry and its material with the
  module-level handles. \<open>disposed\<close> holds the objects whose \<open>dispose()\<close> has been called,
  \<open>children\<close> is \<open>scene.children\<close>, and \<open>geometry\<close>, \<open>material\<close> and \<open>points\<close> are the three
  \<open>let\<close> variables of lines 63-65 (\<open>None\<close> is \<open>null\<close>).
\<close>

type_synonym ref = nat

datatype blending = NormalBlending | AdditiveBlending

datatype object =
    BufferGeometry "string \<rightharpoonup> Float32Array"
  | PointsMaterial real bool bool blending bool
  | Points ref ref
  | PerspectiveCamera

record state =
  heap :: "ref \<rightharpoonup> object"
  next_ref :: ref
  disposed :: "ref set"
  children :: "ref list"
  geometry :: "ref option"
  material :: "ref option"
  points :: "ref option"
  random_calls :: nat

text \<open>
  The constructors of three.js give each geometry, material and scene object a \<open>uuid\<close>,
  which they build from four calls of \<open>Math.random()\<close>.
\<close>

definition new_object :: "object \<Rightarrow> state \<Rightarrow> ref \<times> state" where
  "new_object ob s =
     (next_ref s,
      s\<lparr>heap := (heap s)(next_ref s \<mapsto> ob), next_ref := Suc (next_ref s),
        random_calls := random_calls s + 4\<rparr>)"

text \<open>\<open>x.dispose()\<close>; on \<open>null\<close> the call throws a \<open>TypeError\<close>.\<close>

definition dispose :: "ref option \<Rightarrow> state \<Rightarrow> error option \<times> state" where
  "dispose h s =
     (case h of
        None \<Rightarrow> (Some TypeError, s)
      | Some x \<Rightarrow> (None, s\<lparr>disposed := insert x (disposed s)\<rparr>))"

text \<open>
  \<open>scene.remove(x)\<close> splices \<open>x\<close> out of the children if it is there; \<open>scene.add(x)\<close> takes
  \<open>x\<close> out of its present parent and pushes it at the end.
\<close>

definition scene_remove :: "ref option \<Rightarrow> state \<Rightarrow> state" where
  "scene_remove h s =
     (case h of None \<Rightarrow> s | Some x \<Rightarrow> s\<lparr>children := remove1 x (children s)\<rparr>)"

definition scene_add :: "ref \<Rightarrow> state \<Rightarrow> state" where
  "scene_add x s = s\<lparr>children := remove1 x (children s) @ [x]\<rparr>"

definition setAttribute :: "ref \<Rightarrow> string \<Rightarrow> Float32Array \<Rightarrow> state \<Rightarrow> state" where
  "setAttribute x name a s =
     (case heap s x of
        Some (BufferGeometry attrs) \<Rightarrow>
          s\<lparr>heap := (heap s)(x \<mapsto> BufferGeometry (attrs(name \<mapsto> a)))\<rparr>
      | _ \<Rightarrow> s)"

text \<open>Lines 79-83: the clean-up of the previous galaxy.\<close>

definition cleanup :: "state \<Rightarrow> error option \<times> state" where
  "cleanup s =
     (if points s \<noteq> None then
        (case dispose (geometry s) s of
           (Some e, s1) \<Rightarrow> (Some e, s1)
         | (None, s1) \<Rightarrow>
             (case dispose (material s1) s1 of
                (Some e, s2) \<Rightarrow> (Some e, s2)
              | (None, s2) \<Rightarrow> (None, scene_remove (points s2) s2)))
      else (None, s))"

text \<open>
  Lines 72-279. An exception leaves the function at once, with the state as it is at that
  point: the result is the exception, if any, and the state.
\<close>

definition generateGalaxy ::
  "nat \<Rightarrow> parameters \<Rightarrow> random_source \<Rightarrow> state \<Rightarrow> error option \<times> state" where
  "generateGalaxy limit P rnd s =
     (case cleanup s of
        (Some e, s1) \<Rightarrow> (Some e, s1)
      | (None, s1) \<Rightarrow>
          (let (gm, s2) = new_object (BufferGeometry Map.empty) s1;
               s3 = s2\<lparr>geometry := Some gm\<rparr>
           in case generate limit P rnd (random_calls s3) of
                Inl e \<Rightarrow> (Some e, s3)
              | Inr (positions, colors, k) \<Rightarrow>
                  (let s4 = s3\<lparr>random_calls := k\<rparr>;
                       s5 = setAttribute gm ''position'' positions s4;
                       s6 = setAttribute gm ''color'' colors s5;
                       (m, s7) = new_object
                          (PointsMaterial (psize P) True False AdditiveBlending True) s6;
                       s8 = s7\<lparr>material := Some m\<rparr>;
                       (p, s9) = new_object (Points gm m) s8;
                       s10 = s9\<lparr>points := Some p\<rparr>
                   in (None, scene_add p s10))))"

text \<open>Lines 379-388: the camera is created and added to the scene.\<close>

definition add_camera :: "state \<Rightarrow> state" where
  "add_camera s = (let (c, s1) = new_object PerspectiveCamera s in scene_add c s1)"

text \<open>
  The state in which the script first calls \<open>generateGalaxy\<close> (line 361); the calls of
  \<open>Math.random()\<close> are counted from there.
\<close>

definition init_state :: state where
  "init_state =
     \<lparr>heap = Map.empty, next_ref = 0, disposed = {}, children = [],
      geometry = None, material = None, points = None, random_calls = 0\<rparr>"

text \<open>
  The states the script can be in: every later call of \<open>generateGalaxy\<close> comes from the
  debug panel, with whatever parameters it holds then.
\<close>

inductive reachable :: "state \<Rightarrow> bool" where
  init: "reachable init_state"
| regenerate: "reachable s \<Longrightarrow> reachable (snd (generateGalaxy limit P rnd s))"
| camera: "reachable s \<Longrightarrow> reachable (add_camera s)"

text \<open>The drawables of the galaxy that are attached to the scene, and their buffers.\<close>

definition is_Points :: "object option \<Rightarrow> bool" where
  "is_Points ob = (case ob of Some (Points gm m) \<Rightarrow> True | _ \<Rightarrow> False)"

definition drawables :: "state \<Rightarrow> ref list" where
  "drawables s = filter (\<lambda>x. is_Points (heap s x)) (children s)"

definition attribute_length :: "state \<Rightarrow> ref \<Rightarrow> string \<Rightarrow> nat option" where
  "attribute_length s p name =
     (case heap s p of
        Some (Points gm m) \<Rightarrow>
          (case heap s gm of
             Some (BufferGeometry attrs) \<Rightarrow> map_option length (attrs name)
           | _ \<Rightarrow> None)
      | _ \<Rightarrow> None)"

subsection \<open>The parameter table of the specification\<close>

text \<open>
  The legal ranges of the specification's data model. The script itself checks none of
  them. \<open>count_max\<close> is the upper bound of \<open>count\<close>, which the specification leaves open.
\<close>

definition unit_color :: "Color \<Rightarrow> bool" where
  "unit_color c \<longleftrightarrow> 0 \<le> r c \<and> r c \<le> 1 \<and> 0 \<le> g c \<and> g c \<le> 1 \<and> 0 \<le> b c \<and> b c \<le> 1"

definition valid_parameters :: "int \<Rightarrow> parameters \<Rightarrow> bool" where
  "valid_parameters count_max P \<longleftrightarrow>
     1 \<le> count P \<and> count P \<le> count_max \<and> 0 < psize P \<and> 0 < radius P \<and> 1 \<le> branches P
     \<and> 0 \<le> randomness P \<and> 1 \<le> randomnessPower P
     \<and> unit_color (insideColor P) \<and> unit_color (outsideColor P)"

text \<open>
  The parameters are JavaScript numbers, so finite doubles. \<open>within_range\<close> bounds the
  extent of the field, scatter included, by the range of the single-precision buffers,
  and the twist and the scatter scale by the range of the doubles they are computed in.
\<close>

definition finite_double :: "real \<Rightarrow> bool" where
  "finite_double x \<longleftrightarrow> \<bar>x\<bar> < double_overflow"

definition within_range :: "parameters \<Rightarrow> bool" where
  "within_range P \<longleftrightarrow>
     radius P * (1 + randomness P) < 2 ^ 127 \<and> radius P * \<bar>spin P\<bar> < 2 ^ 1023
     \<and> randomness P < 2 ^ 1023"

text \<open>\<open>Math.random()\<close> returns a number in \<open>[0, 1)\<close>.\<close>

definition uniform_source :: "random_source \<Rightarrow> bool" where
  "uniform_source rnd \<longleftrightarrow> (\<forall>k. 0 \<le> rnd k \<and> rnd k < 1)"

definition channel :: "Color \<Rightarrow> nat \<Rightarrow> real" where
  "channel c ch = (if ch = 0 then r c else if ch = 1 then g c else b c)"

subsection \<open>What the loop stores\<close>

text \<open>
  The expressions of the loop body, one per stored number: the radius of a particle whose
  first draw is the \<open>k\<close>-th, one scatter term whose first draw is the \<open>k\<close>-th, component
  \<open>c\<close> of the position of particle \<open>i\<close> and component \<open>c\<close> of its colour. Lemma
  \<open>loop_body_eq\<close> below shows that these are the values \<open>loop_body\<close> writes.
\<close>

definition radius_at :: "parameters \<Rightarrow> random_source \<Rightarrow> nat \<Rightarrow> jsnum" where
  "radius_at P rnd k = js_mul (Some (rnd k)) (Some (radius P))"

definition offset_at :: "parameters \<Rightarrow> random_source \<Rightarrow> nat \<Rightarrow> jsnum \<Rightarrow> jsnum" where
  "offset_at P rnd k rad =
     js_mul (js_mul (js_mul (Math_pow (rnd k) (randomnessPower P))
                            (Some (if rnd (Suc k) < 0.5 then 1 else - 1)))
                    (Some (randomness P)))
            rad"

definition position_at :: "parameters \<Rightarrow> random_source \<Rightarrow> nat \<Rightarrow> nat \<Rightarrow> nat \<Rightarrow> jsnum" where
  "position_at P rnd k i c =
     (let rad = radius_at P rnd k;
          angle = js_add (branchAngle P i) (js_mul rad (Some (spin P)))
      in float32_store
           (if c = 0 then js_add (js_mul (Math_cos angle) rad) (offset_at P rnd (k + 1) rad)
            else if c = 1 then offset_at P rnd (k + 3) rad
            else js_add (js_mul (Math_sin angle) rad) (offset_at P rnd (k + 5) rad)))"

definition color_at :: "parameters \<Rightarrow> random_source \<Rightarrow> nat \<Rightarrow> nat \<Rightarrow> jsnum" where
  "color_at P rnd k c =
     (let alpha = js_div (radius_at P rnd k) (radius P)
      in float32_store
           (if c = 0 then lerp1 (r (insideColor P)) (r (outsideColor P)) alpha
            else if c = 1 then lerp1 (g (insideColor P)) (g (outsideColor P)) alpha
            else lerp1 (b (insideColor P)) (b (outsideColor P)) alpha))"

text \<open>The two buffers of a run that returns.\<close>

definition stored_positions :: "nat \<Rightarrow> parameters \<Rightarrow> random_source \<Rightarrow> nat \<Rightarrow> Float32Array" where
  "stored_positions limit P rnd k =
     (case generate limit P rnd k of Inl e \<Rightarrow> [] | Inr (positions, colors, k') \<Rightarrow> positions)"

definition stored_colors :: "nat \<Rightarrow> parameters \<Rightarrow> random_source \<Rightarrow> nat \<Rightarrow> Float32Array" where
  "stored_colors limit P rnd k =
     (case generate limit P rnd k of Inl e \<Rightarrow> [] | Inr (positions, colors, k') \<Rightarrow> colors)"

subsection \<open>The states of the clean-up and of the rebuild\<close>

text \<open>
  \<open>wf_state\<close> is the invariant of the reachable states: references are allocated in
  order, the children of the scene are distinct, the only drawable among them is the one
  \<open>points\<close> refers to, and its geometry and material are the ones the handles refer to.
  \<open>detached\<close> is the state after the clean-up, \<open>failed\<close> the one in which an allocation
  has thrown, \<open>rebuilt\<close> the one after a complete run whose loop has ended at draw \<open>k\<close>.
  \<open>parts\<close> is the geometry and the material of a drawable.
\<close>

definition wf_state :: "state \<Rightarrow> bool" where
  "wf_state s \<longleftrightarrow>
     (\<forall>x. next_ref s \<le> x \<longrightarrow> heap s x = None)
     \<and> (\<forall>x \<in> set (children s). x < next_ref s)
     \<and> distinct (children s)
     \<and> (\<forall>x \<in> set (children s). is_Points (heap s x) \<longrightarrow> points s = Some x)
     \<and> (points s \<noteq> None \<longrightarrow> geometry s \<noteq> None \<and> material s \<noteq> None)
     \<and> (\<forall>x \<in> set (children s). \<forall>gm m. heap s x = Some (Points gm m) \<longrightarrow>
            geometry s = Some gm \<and> material s = Some m)
     \<and> (\<forall>p. points s = Some p \<longrightarrow> p < next_ref s)"

definition parts :: "state \<Rightarrow> ref \<Rightarrow> ref set" where
  "parts s p = (case heap s p of Some (Points gm m) \<Rightarrow> {gm, m} | _ \<Rightarrow> {})"

definition detached :: "state \<Rightarrow> state" where
  "detached s =
     (case points s of
        None \<Rightarrow> s
      | Some p \<Rightarrow> s\<lparr>disposed := set_option (material s) \<union> (set_option (geometry s) \<union> disposed s),
                    children := remove1 p (children s)\<rparr>)"

definition failed :: "state \<Rightarrow> state" where
  "failed s1 =
     s1\<lparr>heap := (heap s1)(next_ref s1 \<mapsto> BufferGeometry Map.empty),
        next_ref := Suc (next_ref s1), geometry := Some (next_ref s1),
        random_calls := random_calls s1 + 4\<rparr>"

definition rebuilt :: "parameters \<Rightarrow> Float32Array \<Rightarrow> Float32Array \<Rightarrow> nat \<Rightarrow> state \<Rightarrow> state" where
  "rebuilt P ps cs k s1 =
     s1\<lparr>heap := (heap s1)
            (next_ref s1 \<mapsto> BufferGeometry [''position'' \<mapsto> ps, ''color'' \<mapsto> cs],
             Suc (next_ref s1) \<mapsto> PointsMaterial (psize P) True False AdditiveBlending True,
             Suc (Suc (next_ref s1)) \<mapsto> Points (next_ref s1) (Suc (next_ref s1))),
        next_ref := Suc (Suc (Suc (next_ref s1))),
        children := remove1 (Suc (Suc (next_ref s1))) (children s1) @ [Suc (Suc (next_ref s1))],
        geometry := Some (next_ref s1), material := Some (Suc (next_ref s1)),
        points := Some (Suc (Suc (next_ref s1))), random_calls := k + 8\<rparr>"

subsection \<open>Concrete inputs\<close>

text \<open>
  A small galaxy without scatter, a parameter set beyond what the host can allocate, one
  with almost every field outside the table of the specification, a random source that
  always returns one half, and the states after one and after two successful calls.
  Then three variants of the small galaxy, each within the table: one wider than the
  single-precision range, one without twist whose first particle lies at a tenth, one
  whose inner colour has a red channel of a tenth; and a random source that always
  returns zero.
\<close>

definition example_parameters :: parameters where
  "example_parameters =
     \<lparr>count = 2, psize = 0.01, radius = 5, branches = 3, spin = 1, randomness = 0,
      randomnessPower = 3,
      insideColor = \<lparr>r = 1, g = 0, b = 0\<rparr>, outsideColor = \<lparr>r = 0, g = 0, b = 1\<rparr>\<rparr>"

definition huge_parameters :: parameters where
  "huge_parameters = example_parameters\<lparr>count := 2000000\<rparr>"

definition out_of_range_parameters :: parameters where
  "out_of_range_parameters =
     \<lparr>count = 1, psize = 0, radius = - 5, branches = 3, spin = 1, randomness = - 1,
      randomnessPower = 1 / 2,
      insideColor = \<lparr>r = 3, g = 0, b = 0\<rparr>, outsideColor = \<lparr>r = 0, g = 0, b = - 1\<rparr>\<rparr>"

definition half_source :: random_source where
  "half_source k = 1 / 2"

definition wide_parameters :: parameters where
  "wide_parameters = example_parameters\<lparr>radius := 4 * 10 ^ 39, spin := 0\<rparr>"

definition fifth_parameters :: parameters where
  "fifth_parameters = example_parameters\<lparr>radius := 1 / 5, spin := 0\<rparr>"

definition tenth_parameters :: parameters where
  "tenth_parameters =
     example_parameters\<lparr>insideColor := \<lparr>r = 1 / 10, g = 0, b = 0\<rparr>,
                          outsideColor := \<lparr>r = 0, g = 0, b = 0\<rparr>\<rparr>"


definition active_state :: state where
  "active_state = snd (generateGalaxy 3000000 example_parameters half_source init_state)"

definition resized_state :: state where
  "resized_state =
     snd (generateGalaxy 3000000 (example_parameters\<lparr>count := 1\<rparr>) half_source
            (snd (generateGalaxy 3000000 example_parameters half_source init_state)))"

section \<open>Doubles and singles\<close>

lemma double_overflow_large: "2 ^ 1023 + 8 < double_overflow"
  by (simp add: double_overflow_def)

lemma float32_below_double: "float32_overflow < 2 ^ 1023"
  by (simp add: float32_overflow_def)

lemma float32_overflow_large: "2 ^ 127 < float32_overflow"
  by (simp add: float32_overflow_def)

lemma js_double_Some: "\<bar>x\<bar> < double_overflow \<Longrightarrow> js_double x = Some x"
  by (simp add: js_double_def)

lemma js_double_small: "\<bar>x\<bar> \<le> 2 ^ 1023 \<Longrightarrow> js_double x = Some x"
  using double_overflow_large by (intro js_double_Some) linarith

lemma js_double_le: "\<bar>x\<bar> \<le> c \<Longrightarrow> c \<le> 2 ^ 1023 \<Longrightarrow> js_double x = Some x"
  by (rule js_double_small) (rule order_trans)

lemma float32_exponent_eq:
  assumes "2 powi e \<le> \<bar>x\<bar>" "\<bar>x\<bar> < 2 powi (e + 1)" "- 126 \<le> e"
  shows "float32_exponent x = e"
proof -
  have pos: "0 < \<bar>x\<bar>" using assms(1) zero_less_power_int[of "2::real" e] by linarith
  have "(2::real) powr real_of_int e = 2 powi e" "(2::real) powr (real_of_int e + 1) = 2 powi (e + 1)"
    using powr_real_of_int'[of "2::real" e] powr_real_of_int'[of "2::real" "e + 1"] by simp_all
  with assms(1,2) have "\<lfloor>log 2 \<bar>x\<bar>\<rfloor> = e"
    using floor_log_eq_powr_iff[of "\<bar>x\<bar>" 2 e] pos by simp
  with assms(3) show ?thesis by (simp add: float32_exponent_def)
qed

lemma float32_round_eval:
  assumes "2 powi e \<le> \<bar>x\<bar>" "\<bar>x\<bar> < 2 powi (e + 1)" "- 126 \<le> e" "\<bar>x\<bar> < float32_overflow"
  shows "float32_round x
       = Some (real_of_int (round_half_even (x / 2 powi (e - 23))) * 2 powi (e - 23))"
proof -
  have "0 < \<bar>x\<bar>" using assms(1) zero_less_power_int[of "2::real" e] by linarith
  then have "x \<noteq> 0" by simp
  then show ?thesis
    using assms(4) float32_exponent_eq[OF assms(1-3)]
    by (simp add: float32_round_def Let_def)
qed



section \<open>The loop\<close>

lemma particle_loop_foldl:
  "particle_loop P rnd i st = foldl (\<lambda>s j. loop_body P rnd j s) st [i..<nat (count P)]"
proof (induction P rnd i st rule: particle_loop.induct)
  case (1 P rnd i st)
  show ?case
  proof (cases "int i < count P")
    case True
    then have "i < nat (count P)" by linarith
    then have "[i..<nat (count P)] = i # [Suc i..<nat (count P)]"
      by (simp add: upt_conv_Cons)
    with True 1 show ?thesis by simp
  next
    case False
    then have "[i..<nat (count P)] = []" by simp
    with False show ?thesis by simp
  qed
qed

lemma loop_body_eq:
  "loop_body P rnd i (ps, cs, k) =
     (ps[3 * i := position_at P rnd k i 0, 3 * i + 1 := position_at P rnd k i 1,
         3 * i + 2 := position_at P rnd k i 2],
      cs[3 * i := color_at P rnd k 0, 3 * i + 1 := color_at P rnd k 1,
         3 * i + 2 := color_at P rnd k 2],
      k + 7)"
  by (simp add: loop_body_def random_offset_def Math_random_def position_at_def color_at_def
      radius_at_def offset_at_def Let_def mult.commute eval_nat_numeral)

lemma foldl_loop_body:
  "\<exists>ps' cs'. foldl (\<lambda>s j. loop_body P rnd j s) (ps, cs, k) [0..<n] = (ps', cs', k + 7 * n)
     \<and> length ps' = length ps \<and> length cs' = length cs
     \<and> (\<forall>j c. j < n \<longrightarrow> c < 3 \<longrightarrow> 3 * j + c < length ps \<longrightarrow>
            ps' ! (3 * j + c) = position_at P rnd (k + 7 * j) j c)
     \<and> (\<forall>j c. j < n \<longrightarrow> c < 3 \<longrightarrow> 3 * j + c < length cs \<longrightarrow>
            cs' ! (3 * j + c) = color_at P rnd (k + 7 * j) c)"
proof (induction n)
  case 0
  show ?case by simp
next
  case (Suc n)
  then obtain ps' cs' where
    run: "foldl (\<lambda>s j. loop_body P rnd j s) (ps, cs, k) [0..<n] = (ps', cs', k + 7 * n)"
    and len: "length ps' = length ps" "length cs' = length cs"
    and pos: "\<And>j c. j < n \<Longrightarrow> c < 3 \<Longrightarrow> 3 * j + c < length ps \<Longrightarrow>
            ps' ! (3 * j + c) = position_at P rnd (k + 7 * j) j c"
    and col: "\<And>j c. j < n \<Longrightarrow> c < 3 \<Longrightarrow> 3 * j + c < length cs \<Longrightarrow>
            cs' ! (3 * j + c) = color_at P rnd (k + 7 * j) c"
    by blast
  let ?ps = "ps'[3 * n := position_at P rnd (k + 7 * n) n 0,
                 3 * n + 1 := position_at P rnd (k + 7 * n) n 1,
                 3 * n + 2 := position_at P rnd (k + 7 * n) n 2]"
  let ?cs = "cs'[3 * n := color_at P rnd (k + 7 * n) 0,
                 3 * n + 1 := color_at P rnd (k + 7 * n) 1,
                 3 * n + 2 := color_at P rnd (k + 7 * n) 2]"
  have step: "foldl (\<lambda>s j. loop_body P rnd j s) (ps, cs, k) [0..<Suc n] = (?ps, ?cs, k + 7 * Suc n)"
    by (simp add: run loop_body_eq)
  have cases3: "\<And>c::nat. c < 3 \<Longrightarrow> c = 0 \<or> c = 1 \<or> c = 2" by arith
  have P: "?ps ! (3 * j + c) = position_at P rnd (k + 7 * j) j c"
    if "j < Suc n" "c < 3" "3 * j + c < length ps" for j c
  proof (cases "j = n")
    case True
    with that len cases3[OF that(2)] show ?thesis by (auto simp: nth_list_update)
  next
    case False
    with that have "j < n" by simp
    then have "3 * j + c \<noteq> 3 * n" "3 * j + c \<noteq> 3 * n + 1" "3 * j + c \<noteq> 3 * n + 2"
      using that(2) by arith+
    then show ?thesis using pos[OF \<open>j < n\<close> that(2,3)] by simp
  qed
  have C: "?cs ! (3 * j + c) = color_at P rnd (k + 7 * j) c"
    if "j < Suc n" "c < 3" "3 * j + c < length cs" for j c
  proof (cases "j = n")
    case True
    with that len cases3[OF that(2)] show ?thesis by (auto simp: nth_list_update)
  next
    case False
    with that have "j < n" by simp
    then have "3 * j + c \<noteq> 3 * n" "3 * j + c \<noteq> 3 * n + 1" "3 * j + c \<noteq> 3 * n + 2"
      using that(2) by arith+
    then show ?thesis using col[OF \<open>j < n\<close> that(2,3)] by simp
  qed
  show ?case
    apply (rule exI[of _ ?ps], rule exI[of _ ?cs])
    using step len P C by simp
qed

lemma generate_fails:
  "count P < 0 \<or> int limit < 3 * count P \<Longrightarrow> generate limit P rnd k = Inl RangeError"
  by (auto simp: generate_def new_Float32Array_def)

lemma generate_returns:
  assumes "0 \<le> count P" "3 * count P \<le> int limit"
  shows "\<exists>ps cs. generate limit P rnd k = Inr (ps, cs, k + 7 * nat (count P))
     \<and> length ps = 3 * nat (count P) \<and> length cs = 3 * nat (count P)
     \<and> (\<forall>i c. i < nat (count P) \<longrightarrow> c < 3 \<longrightarrow>
            ps ! (3 * i + c) = position_at P rnd (k + 7 * i) i c
          \<and> cs ! (3 * i + c) = color_at P rnd (k + 7 * i) c)"
proof -
  let ?n = "nat (count P)"
  let ?z = "replicate (nat (count P * 3)) (Some 0 :: jsnum)"
  have len: "length ?z = 3 * ?n" using assms(1) by (simp add: nat_mult_distrib)
  have gen: "generate limit P rnd k = Inr (particle_loop P rnd 0 (?z, ?z, k))"
    using assms by (simp add: generate_def new_Float32Array_def mult.commute)
  obtain ps cs where
    run: "foldl (\<lambda>s j. loop_body P rnd j s) (?z, ?z, k) [0..<?n] = (ps, cs, k + 7 * ?n)"
    and lens: "length ps = length ?z" "length cs = length ?z"
    and pos: "\<And>j c. j < ?n \<Longrightarrow> c < 3 \<Longrightarrow> 3 * j + c < length ?z \<Longrightarrow>
            ps ! (3 * j + c) = position_at P rnd (k + 7 * j) j c"
    and col: "\<And>j c. j < ?n \<Longrightarrow> c < 3 \<Longrightarrow> 3 * j + c < length ?z \<Longrightarrow>
            cs ! (3 * j + c) = color_at P rnd (k + 7 * j) c"
    using foldl_loop_body[of P rnd ?z ?z k ?n] by blast
  have inside: "3 * j + c < length ?z" if "j < ?n" "c < 3" for j c
    using that len by linarith
  have res: "generate limit P rnd k = Inr (ps, cs, k + 7 * ?n)"
    by (simp only: gen particle_loop_foldl run)
  have vals: "ps ! (3 * i + c) = position_at P rnd (k + 7 * i) i c
        \<and> cs ! (3 * i + c) = color_at P rnd (k + 7 * i) c" if "i < ?n" "c < 3" for i c
    using pos[OF that inside[OF that]] col[OF that inside[OF that]] by simp
  have "length ps = 3 * ?n" "length cs = 3 * ?n"
    using lens len by simp_all
  with res vals show ?thesis by blast
qed

lemma Math_pow_unit:
  assumes "0 \<le> x" "x \<le> 1" "0 < y"
  shows "\<exists>z. Math_pow x y = Some z \<and> 0 \<le> z \<and> z \<le> 1"
proof (cases "x = 0")
  case True
  with assms(3) show ?thesis by (simp add: Math_pow_def)
next
  case False
  with assms(1) have pos: "0 < x" by simp
  have le: "x powr y \<le> 1" using assms by (intro powr_le1) simp_all
  have "\<bar>x powr y\<bar> \<le> 1" using le by simp
  then have "js_double (x powr y) = Some (x powr y)" by (rule js_double_le) simp
  with pos assms(3) le show ?thesis by (simp add: Math_pow_def)
qed

lemma js_mul_Some:
  "\<bar>x * y\<bar> \<le> c \<Longrightarrow> c \<le> 2 ^ 1023 \<Longrightarrow> js_mul (Some x) (Some y) = Some (x * y)"
  by (simp add: js_mul_def js_lift2_def js_double_le)

lemma js_add_Some:
  "\<bar>x + y\<bar> \<le> c \<Longrightarrow> c \<le> 2 ^ 1023 \<Longrightarrow> js_add (Some x) (Some y) = Some (x + y)"
  by (simp add: js_add_def js_lift2_def js_double_le)

lemma js_sub_Some:
  "\<bar>x - y\<bar> \<le> c \<Longrightarrow> c \<le> 2 ^ 1023 \<Longrightarrow> js_sub (Some x) (Some y) = Some (x - y)"
  by (simp add: js_sub_def js_lift2_def js_double_le)

lemma js_div_Some:
  "y \<noteq> 0 \<Longrightarrow> \<bar>x / y\<bar> \<le> c \<Longrightarrow> c \<le> 2 ^ 1023 \<Longrightarrow> js_div (Some x) y = Some (x / y)"
  by (simp add: js_div_def js_double_le)

lemma sign_times:
  fixes z :: real
  assumes "0 \<le> z" "z \<le> 1"
  shows "js_mul (Some z) (Some (if v < 0.5 then 1 else - 1))
       = Some (z * (if v < (0.5::real) then 1 else - 1))"
proof (rule js_mul_Some)
  show "\<bar>z * (if v < 0.5 then 1 else - 1)\<bar> \<le> 1" using assms by (simp add: abs_mult)
qed simp

lemma uniform_draw: "uniform_source rnd \<Longrightarrow> 0 \<le> rnd k \<and> rnd k \<le> 1"
  by (simp add: uniform_source_def less_imp_le)

lemma offset_at_zero:
  assumes "uniform_source rnd" "0 < randomnessPower P" "randomness P = 0"
  shows "offset_at P rnd k (Some x) = Some 0"
proof -
  have "0 \<le> rnd k" "rnd k \<le> 1" using uniform_draw[OF assms(1), of k] by simp_all
  then obtain z where z: "Math_pow (rnd k) (randomnessPower P) = Some z" "0 \<le> z" "z \<le> 1"
    using Math_pow_unit[of "rnd k" "randomnessPower P"] assms(2) by blast
  show ?thesis
    unfolding offset_at_def z(1) sign_times[OF z(2,3)] assms(3)
    by (simp add: js_mul_Some[where c = 0])
qed

lemma abs_mult_bound:
  fixes x y :: real
  assumes "\<bar>x\<bar> \<le> X" "\<bar>y\<bar> \<le> Y"
  shows "\<bar>x * y\<bar> \<le> X * Y"
proof -
  have "0 \<le> X" using assms(1) abs_ge_zero[of x] by linarith
  then show ?thesis
    unfolding abs_mult using assms by (intro mult_mono) simp_all
qed

lemma branchAngle_value:
  assumes "1 \<le> branches P"
  shows "branchAngle P i =
     Some (real_of_int (int i mod branches P) / real_of_int (branches P) * 2 * pi)"
proof -
  let ?m = "real_of_int (int i mod branches P)" and ?b = "real_of_int (branches P)"
  define f where "f = ?m / ?b"
  have rem: "js_rem (int i) (branches P) = Some ?m"
    using assms by (cases "i = 0") (simp_all add: js_rem_def)
  have b: "0 < ?b" "?b \<noteq> 0" using assms by simp_all
  have "0 \<le> int i mod branches P" "int i mod branches P < branches P"
    using assms by simp_all
  then have "0 \<le> ?m" "?m \<le> ?b" by linarith+
  then have "0 \<le> ?m / ?b" "?m / ?b \<le> 1"
    using b(1) by (simp_all add: divide_le_eq_1)
  then have f: "\<bar>f\<bar> \<le> 1" by (simp add: f_def)
  have p: "\<bar>pi\<bar> \<le> 4" using pi_less_4 pi_ge_zero by simp
  have fp: "\<bar>f * pi\<bar> \<le> 4" using abs_mult_bound[OF f p] by simp
  have fp2: "\<bar>f * pi * 2\<bar> \<le> 8" using abs_mult_bound[OF fp, of 2 2] by simp
  have q: "js_div (Some ?m) ?b = Some f"
    unfolding f_def by (rule js_div_Some[OF b(2) f[unfolded f_def]]) simp
  have m1: "js_mul (Some f) (Some pi) = Some (f * pi)"
    by (rule js_mul_Some[OF fp]) simp
  have m2: "js_mul (Some (f * pi)) (Some 2) = Some (f * pi * 2)"
    by (rule js_mul_Some[OF fp2]) simp
  have "branchAngle P i = Some (f * pi * 2)"
    by (simp add: branchAngle_def rem q m1 m2)
  then show ?thesis by (simp add: f_def mult.commute mult.left_commute)
qed

section \<open>The generated buffers\<close>

text \<open>
  Claim C3. For every valid parameter set (and a host that can allocate the buffers of the
  largest legal count) \<open>generate\<close> returns, and both arrays have length \<open>3 * count\<close>.
\<close>

theorem generate_lengths:
  assumes "valid_parameters count_max P" "3 * count_max \<le> int limit"
  shows "\<exists>positions colors k'. generate limit P rnd k = Inr (positions, colors, k')
     \<and> int (length positions) = 3 * count P \<and> int (length colors) = 3 * count P"
proof -
  have "0 \<le> count P" "3 * count P \<le> int limit"
    using assms by (simp_all add: valid_parameters_def)
  from generate_returns[OF this, of rnd k] show ?thesis
    using \<open>0 \<le> count P\<close> by auto
qed

text \<open>
  Claim C10. With \<open>count = 0\<close> the generator returns two empty arrays and makes no
  draw: the loop runs zero times.
\<close>

theorem generate_count_zero:
  "count P = 0 \<Longrightarrow> generate limit P rnd k = Inr ([], [], k)"
  by (simp add: generate_def new_Float32Array_def)


lemma example_valid: "valid_parameters 1000000 example_parameters"
  by (simp add: valid_parameters_def example_parameters_def unit_color_def)

lemma half_uniform: "uniform_source half_source"
  by (simp add: uniform_source_def half_source_def)

text \<open>
  Claim C3 at the small galaxy: both arrays have length 6.
\<close>

theorem generate_lengths_witness:
  "valid_parameters 1000000 example_parameters \<and> 3 * 1000000 \<le> int 3000000
   \<and> (\<exists>positions colors k'.
         generate 3000000 example_parameters half_source 0 = Inr (positions, colors, k')
       \<and> length positions = 6 \<and> length colors = 6)"
proof -
  have lim: "3 * 1000000 \<le> int 3000000" by simp
  from generate_lengths[OF example_valid lim, of half_source 0]
  show ?thesis using example_valid by (simp add: example_parameters_def)
qed

text \<open>
  Claim C10 at the small galaxy with its count set to 0.
\<close>

theorem generate_count_zero_witness:
  "count (example_parameters\<lparr>count := 0\<rparr>) = 0
   \<and> generate 3000000 (example_parameters\<lparr>count := 0\<rparr>) half_source 0 = Inr ([], [], 0)"
  using generate_count_zero[of "example_parameters\<lparr>count := 0\<rparr>" 3000000 half_source 0]
  by simp


section \<open>The single-precision store\<close>


lemma round_half_even_of_int: "round_half_even (real_of_int n) = n"
  by (simp add: round_half_even_def Let_def)











lemma float32_round_zero: "float32_round 0 = Some 0"
  by (simp add: float32_round_def float32_overflow_def)


lemma float32_round_dyadic:
  assumes "2 powi e \<le> \<bar>x\<bar>" "\<bar>x\<bar> < 2 powi (e + 1)" "- 126 \<le> e" "\<bar>x\<bar> < float32_overflow"
    and "x / 2 powi (e - 23) = real_of_int n"
  shows "float32_round x = Some x"
proof -
  have "real_of_int n * 2 powi (e - 23) = x"
    using assms(5) by (simp add: field_simps)
  then show ?thesis
    using float32_round_eval[OF assms(1-4)] by (simp add: assms(5) round_half_even_of_int)
qed


lemma float32_round_three_halves: "float32_round (3 / 2) = Some (3 / 2)"
  by (rule float32_round_dyadic[where e = 0 and n = "3 * 2 ^ 22"])
     (simp_all add: float32_overflow_def power_int_minus)

lemma float32_round_minus_half: "float32_round (- (1 / 2)) = Some (- (1 / 2))"
  by (rule float32_round_dyadic[where e = "- 1" and n = "- (2 ^ 23)"])
     (simp_all add: float32_overflow_def power_int_minus)

section \<open>The stored positions and colours\<close>

lemma branchAngle_bound:
  assumes "1 \<le> branches P"
  shows "\<bar>real_of_int (int i mod branches P) / real_of_int (branches P) * 2 * pi\<bar> \<le> 8"
proof -
  let ?m = "real_of_int (int i mod branches P)" and ?b = "real_of_int (branches P)"
  have "0 \<le> int i mod branches P" "int i mod branches P < branches P"
    using assms by simp_all
  then have "0 \<le> ?m" "?m \<le> ?b" "0 < ?b" by linarith+
  then have "0 \<le> ?m / ?b" "?m / ?b \<le> 1" by (simp_all add: divide_le_eq_1)
  then have f: "\<bar>?m / ?b\<bar> \<le> 1" by simp
  have "\<bar>2 * pi\<bar> \<le> 8" using pi_less_4 pi_ge_zero by simp
  from abs_mult_bound[OF f this] show ?thesis by (simp add: mult.assoc)
qed

lemma abs_add_below:
  fixes x y :: real
  assumes "\<bar>x\<bar> \<le> c" "\<bar>y\<bar> < t" "t + c < d"
  shows "\<bar>x + y\<bar> < d"
  using assms by linarith

lemma radius_at_value:
  assumes "uniform_source rnd" "finite_double (radius P)"
  shows "radius_at P rnd k = Some (rnd k * radius P)"
proof -
  have "\<bar>rnd k * radius P\<bar> \<le> 1 * \<bar>radius P\<bar>"
    using uniform_draw[OF assms(1), of k] by (intro abs_mult_bound) simp_all
  then have "\<bar>rnd k * radius P\<bar> < double_overflow"
    using assms(2) by (simp add: finite_double_def)
  then show ?thesis
    by (simp add: radius_at_def js_mul_def js_lift2_def js_double_Some)
qed

lemma js_add_zero: "js_add (js_mul a c) (Some 0) = js_mul a c"
  by (cases a; cases c) (simp_all add: js_add_def js_mul_def js_lift2_def js_double_def)

lemma float32_store_Some: "float32_store (Some x) = float32_round x"
  by (simp add: float32_store_def)

lemma position_at_spiral:
  assumes "uniform_source rnd" "finite_double (radius P)"
    and "0 < randomnessPower P" "randomness P = 0"
  shows "position_at P rnd k i c =
     (let radius_i = rnd k * radius P;
          angle = js_add (branchAngle P i) (js_mul (Some radius_i) (Some (spin P)))
      in if c = 0 then float32_store (js_mul (Math_cos angle) (Some radius_i))
         else if c = 1 then Some 0
         else float32_store (js_mul (Math_sin angle) (Some radius_i)))"
proof -
  note off = offset_at_zero[OF assms(1,3,4)]
  show ?thesis
    by (simp add: position_at_def radius_at_value[OF assms(1,2)] off js_add_zero
        float32_store_Some float32_round_zero Let_def)
qed

lemma spiral_real:
  assumes "1 \<le> branches P" "0 \<le> u" "u \<le> 1" "0 < radius P" "finite_double (radius P)"
    and "radius P * \<bar>spin P\<bar> < 2 ^ 1023"
  shows "js_mul (Math_cos (js_add (branchAngle P i) (js_mul (Some (u * radius P)) (Some (spin P)))))
                (Some (u * radius P))
       = Some (cos (real_of_int (int i mod branches P) / real_of_int (branches P) * 2 * pi
                    + u * radius P * spin P) * (u * radius P))"
    and "js_mul (Math_sin (js_add (branchAngle P i) (js_mul (Some (u * radius P)) (Some (spin P)))))
                (Some (u * radius P))
       = Some (sin (real_of_int (int i mod branches P) / real_of_int (branches P) * 2 * pi
                    + u * radius P * spin P) * (u * radius P))"
proof -
  let ?rho = "u * radius P"
  let ?ba = "real_of_int (int i mod branches P) / real_of_int (branches P) * 2 * pi"
  have rho: "\<bar>?rho\<bar> \<le> radius P"
    using abs_mult_bound[of u 1 "radius P" "radius P"] assms(2-4) by simp
  have "\<bar>?rho * spin P\<bar> \<le> radius P * \<bar>spin P\<bar>"
    using rho by (intro abs_mult_bound) simp_all
  then have sa: "\<bar>?rho * spin P\<bar> < 2 ^ 1023" using assms(6) by (rule le_less_trans)
  have "\<bar>?rho * spin P\<bar> < double_overflow"
    using abs_add_below[OF _ sa double_overflow_large, of 0] by simp
  then have m: "js_mul (Some ?rho) (Some (spin P)) = Some (?rho * spin P)"
    by (simp add: js_mul_def js_lift2_def js_double_Some)
  have "\<bar>?ba + ?rho * spin P\<bar> < double_overflow"
    by (rule abs_add_below[OF branchAngle_bound[OF assms(1), of i] sa double_overflow_large])
  then have a: "js_add (branchAngle P i) (Some (?rho * spin P)) = Some (?ba + ?rho * spin P)"
    by (simp add: branchAngle_value[OF assms(1)] js_add_def js_lift2_def js_double_Some)
  have fin: "\<bar>radius P\<bar> < double_overflow" using assms(5) by (simp add: finite_double_def)
  have "\<bar>cos (?ba + ?rho * spin P) * ?rho\<bar> \<le> 1 * radius P"
    using rho by (intro abs_mult_bound) simp_all
  then have c: "\<bar>cos (?ba + ?rho * spin P) * ?rho\<bar> < double_overflow" using fin by simp
  have "\<bar>sin (?ba + ?rho * spin P) * ?rho\<bar> \<le> 1 * radius P"
    using rho by (intro abs_mult_bound) simp_all
  then have s: "\<bar>sin (?ba + ?rho * spin P) * ?rho\<bar> < double_overflow" using fin by simp
  show "js_mul (Math_cos (js_add (branchAngle P i) (js_mul (Some ?rho) (Some (spin P)))))
                (Some ?rho)
       = Some (cos (?ba + ?rho * spin P) * ?rho)"
    unfolding m a using c by (simp add: Math_cos_def js_mul_def js_lift2_def js_double_Some)
  show "js_mul (Math_sin (js_add (branchAngle P i) (js_mul (Some ?rho) (Some (spin P)))))
                (Some ?rho)
       = Some (sin (?ba + ?rho * spin P) * ?rho)"
    unfolding m a using s by (simp add: Math_sin_def js_mul_def js_lift2_def js_double_Some)
qed

lemma float32_round_finite: "\<bar>x\<bar> < float32_overflow \<Longrightarrow> \<exists>y. float32_round x = Some y"
  by (simp add: float32_round_def Let_def)

lemma channel_unit:
  "unit_color col \<Longrightarrow> 0 \<le> channel col ch \<and> channel col ch \<le> 1"
  by (simp add: unit_color_def channel_def)

lemma lerp1_value:
  assumes "0 \<le> a" "a \<le> 1" "0 \<le> c" "c \<le> 1" "0 \<le> t" "t \<le> 1"
  shows "lerp1 a c (Some t) = Some (a + t * (c - a))"
proof -
  have d: "\<bar>c - a\<bar> \<le> 1" using assms by simp
  have s: "js_sub (Some c) (Some a) = Some (c - a)" by (rule js_sub_Some[OF d]) simp
  have "\<bar>(c - a) * t\<bar> \<le> 1 * 1" using d assms(5,6) by (intro abs_mult_bound) simp_all
  then have p: "\<bar>(c - a) * t\<bar> \<le> 1" by simp
  have m: "js_mul (Some (c - a)) (Some t) = Some ((c - a) * t)" by (rule js_mul_Some[OF p]) simp
  have "\<bar>a + (c - a) * t\<bar> \<le> 2" using p assms(1,2) by linarith
  then have "js_add (Some a) (Some ((c - a) * t)) = Some (a + (c - a) * t)"
    by (rule js_add_Some) simp
  then show ?thesis by (simp add: lerp1_def s m mult.commute)
qed

lemma color_at_rounded:
  assumes "uniform_source rnd" "finite_double (radius P)" "0 < radius P"
    and "unit_color (insideColor P)" "unit_color (outsideColor P)" "ch < 3"
  shows "color_at P rnd m ch =
     float32_round (channel (insideColor P) ch
                    + rnd m * radius P / radius P
                      * (channel (outsideColor P) ch - channel (insideColor P) ch))"
proof -
  note u = uniform_draw[OF assms(1), of m]
  have t: "rnd m * radius P / radius P = rnd m" using assms(3) by simp
  have "\<bar>rnd m * radius P / radius P\<bar> \<le> 1" using u by (simp only: t) simp
  then have alpha: "js_div (Some (rnd m * radius P)) (radius P) = Some (rnd m * radius P / radius P)"
    using assms(3) by (intro js_div_Some[where c = 1]) simp_all
  have lerp: "lerp1 (channel (insideColor P) n) (channel (outsideColor P) n)
        (Some (rnd m * radius P / radius P))
      = Some (channel (insideColor P) n
              + rnd m * radius P / radius P
                * (channel (outsideColor P) n - channel (insideColor P) n))" for n
    using channel_unit[OF assms(4), of n] channel_unit[OF assms(5), of n] u
    by (intro lerp1_value) (simp_all only: t)
  have "ch = 0 \<or> ch = 1 \<or> ch = 2" using assms(6) by arith
  then show ?thesis
    using lerp[of 0] lerp[of 1] lerp[of 2]
    by (auto simp: color_at_def radius_at_value[OF assms(1,2)] alpha float32_store_Some
        channel_def Let_def)
qed

lemma lerp_between:
  fixes a c u :: real
  assumes "0 \<le> u" "u \<le> 1"
  shows "min a c \<le> a + u * (c - a) \<and> a + u * (c - a) \<le> max a c"
proof (cases "a \<le> c")
  case True
  then have "0 \<le> u * (c - a)" "u * (c - a) \<le> c - a"
    using assms by (simp_all add: mult_left_le_one_le)
  with True show ?thesis by simp
next
  case False
  then have "0 \<le> u * (a - c)" "0 \<le> (1 - u) * (a - c)"
    using assms by simp_all
  moreover have "a + u * (c - a) = a - u * (a - c)" "a + u * (c - a) = c + (1 - u) * (a - c)"
    by (simp_all add: algebra_simps)
  ultimately have "a + u * (c - a) \<le> a" "c \<le> a + u * (c - a)"
    by linarith+
  with False show ?thesis by simp
qed

lemma offset_at_bound:
  assumes "uniform_source rnd" "0 < randomnessPower P" "0 \<le> randomness P"
    and "randomness P < 2 ^ 1023" "\<bar>x\<bar> \<le> R" "randomness P * R < 2 ^ 127"
  shows "\<exists>v. offset_at P rnd k (Some x) = Some v \<and> \<bar>v\<bar> \<le> randomness P * R"
proof -
  have "0 \<le> rnd k" "rnd k \<le> 1" using uniform_draw[OF assms(1), of k] by simp_all
  then obtain z where z: "Math_pow (rnd k) (randomnessPower P) = Some z" "0 \<le> z" "z \<le> 1"
    using Math_pow_unit[of "rnd k" "randomnessPower P"] assms(2) by blast
  define w where "w = z * (if rnd (Suc k) < 0.5 then 1 else - 1)"
  have w: "\<bar>w\<bar> \<le> 1" using z(2,3) by (simp add: w_def abs_mult)
  have s1: "js_mul (Some z) (Some (if rnd (Suc k) < 0.5 then 1 else - 1)) = Some w"
    unfolding w_def by (rule sign_times[OF z(2,3)])
  have "\<bar>w * randomness P\<bar> \<le> 1 * randomness P"
    using w assms(3) by (intro abs_mult_bound) simp_all
  then have wr: "\<bar>w * randomness P\<bar> \<le> randomness P" by simp
  have "\<bar>w * randomness P\<bar> \<le> 2 ^ 1023" using wr assms(4) by linarith
  then have s2: "js_mul (Some w) (Some (randomness P)) = Some (w * randomness P)"
    by (rule js_mul_Some) simp
  have wx: "\<bar>w * randomness P * x\<bar> \<le> randomness P * R"
    using wr assms(5) by (rule abs_mult_bound)
  have "\<bar>w * randomness P * x\<bar> \<le> 2 ^ 127" using wx assms(6) by linarith
  then have s3: "js_mul (Some (w * randomness P)) (Some x) = Some (w * randomness P * x)"
    by (rule js_mul_Some) simp
  show ?thesis
    unfolding offset_at_def z(1) s1 s2 s3 using wx by simp
qed

lemma within_range_radius:
  assumes "0 < radius P" "0 \<le> randomness P" "within_range P"
  shows "radius P < 2 ^ 127" "randomness P * radius P < 2 ^ 127" "finite_double (radius P)"
    "radius P + randomness P * radius P < 2 ^ 127"
proof -
  have sum: "radius P * (1 + randomness P) = radius P + randomness P * radius P"
    by (simp add: algebra_simps)
  have nn: "0 \<le> randomness P * radius P" using assms(1,2) by simp
  show 4: "radius P + randomness P * radius P < 2 ^ 127"
    using assms(3) by (simp add: within_range_def sum)
  show 1: "radius P < 2 ^ 127" using 4 nn by linarith
  show "randomness P * radius P < 2 ^ 127" using 4 assms(1) by linarith
  have "\<bar>radius P\<bar> < 2 ^ 127" using 1 assms(1) by simp
  then have "\<bar>radius P\<bar> < double_overflow"
    by (rule less_trans) (simp add: double_overflow_def)
  then show "finite_double (radius P)" by (simp add: finite_double_def)
qed

lemma position_at_finite:
  assumes "uniform_source rnd" "1 \<le> branches P" "0 < radius P" "0 \<le> randomness P"
    and "0 < randomnessPower P" "within_range P"
  shows "\<exists>x. position_at P rnd k i c = Some x"
proof -
  let ?R = "radius P"
  let ?rho = "rnd k * ?R"
  let ?a = "real_of_int (int i mod branches P) / real_of_int (branches P) * 2 * pi
              + ?rho * spin P"
  note wr = within_range_radius[OF assms(3,4,6)]
  note u = uniform_draw[OF assms(1), of k]
  have tw: "?R * \<bar>spin P\<bar> < 2 ^ 1023" "randomness P < 2 ^ 1023"
    using assms(6) by (simp_all add: within_range_def)
  have rho: "\<bar>?rho\<bar> \<le> ?R"
    using abs_mult_bound[of "rnd k" 1 ?R ?R] u assms(3) by simp
  have rad: "radius_at P rnd k = Some ?rho" by (rule radius_at_value[OF assms(1) wr(3)])
  note sp = spiral_real[OF assms(2) conjunct1[OF u] conjunct2[OF u] assms(3) wr(3) tw(1), of i]
  have off: "\<exists>v. offset_at P rnd j (Some ?rho) = Some v \<and> \<bar>v\<bar> \<le> randomness P * ?R" for j
    by (rule offset_at_bound[OF assms(1,5,4) tw(2) rho wr(2)])
  have fin: "\<exists>y. float32_store (Some v) = Some y" if "\<bar>v\<bar> < 2 ^ 127" for v
  proof -
    have "\<bar>v\<bar> < float32_overflow" using that float32_overflow_large by linarith
    then show ?thesis by (simp add: float32_store_Some float32_round_finite)
  qed
  have sum: "\<exists>y. float32_store (js_add (Some (t * ?rho)) (Some v)) = Some y"
    if "\<bar>t\<bar> \<le> 1" "\<bar>v\<bar> \<le> randomness P * ?R" for t v
  proof -
    have "\<bar>t * ?rho\<bar> \<le> 1 * ?R" using that(1) rho by (rule abs_mult_bound)
    then have b: "\<bar>t * ?rho + v\<bar> < 2 ^ 127" using that(2) wr(4) by linarith
    then have "\<bar>t * ?rho + v\<bar> \<le> 2 ^ 127" by simp
    then have "js_add (Some (t * ?rho)) (Some v) = Some (t * ?rho + v)"
      by (rule js_add_Some) simp
    with fin[OF b] show ?thesis by simp
  qed
  obtain v1 where v1: "offset_at P rnd (Suc k) (Some ?rho) = Some v1" "\<bar>v1\<bar> \<le> randomness P * ?R"
    using off[of "Suc k"] by blast
  obtain v3 where v3: "offset_at P rnd (k + 3) (Some ?rho) = Some v3" "\<bar>v3\<bar> \<le> randomness P * ?R"
    using off[of "k + 3"] by blast
  obtain v5 where v5: "offset_at P rnd (k + 5) (Some ?rho) = Some v5" "\<bar>v5\<bar> \<le> randomness P * ?R"
    using off[of "k + 5"] by blast
  have "\<bar>v3\<bar> < 2 ^ 127" using v3(2) wr(2) by linarith
  then have y: "\<exists>y. float32_store (Some v3) = Some y" by (rule fin)
  have x: "\<exists>y. float32_store (js_add (Some (cos ?a * ?rho)) (Some v1)) = Some y"
    by (rule sum[OF _ v1(2)]) simp
  have z: "\<exists>y. float32_store (js_add (Some (sin ?a * ?rho)) (Some v5)) = Some y"
    by (rule sum[OF _ v5(2)]) simp
  show ?thesis
    using x y z
    by (simp add: position_at_def rad sp v1(1) v3(1) v5(1) Let_def)
qed

lemma color_at_finite:
  assumes "uniform_source rnd" "finite_double (radius P)" "0 < radius P"
    and "unit_color (insideColor P)" "unit_color (outsideColor P)" "ch < 3"
  shows "\<exists>v c. color_at P rnd m ch = Some c \<and> float32_round v = Some c
     \<and> min (channel (insideColor P) ch) (channel (outsideColor P) ch) \<le> v
     \<and> v \<le> max (channel (insideColor P) ch) (channel (outsideColor P) ch)"
proof -
  let ?v = "channel (insideColor P) ch
              + rnd m * (channel (outsideColor P) ch - channel (insideColor P) ch)"
  note u = uniform_draw[OF assms(1), of m]
  have t: "rnd m * radius P / radius P = rnd m" using assms(3) by simp
  have val: "color_at P rnd m ch = float32_round ?v"
    using color_at_rounded[OF assms, of m] by (simp only: t)
  have between: "min (channel (insideColor P) ch) (channel (outsideColor P) ch) \<le> ?v"
    "?v \<le> max (channel (insideColor P) ch) (channel (outsideColor P) ch)"
    using lerp_between[of "rnd m" "channel (insideColor P) ch" "channel (outsideColor P) ch"] u
    by simp_all
  have "0 \<le> min (channel (insideColor P) ch) (channel (outsideColor P) ch)"
    "max (channel (insideColor P) ch) (channel (outsideColor P) ch) \<le> 1"
    using channel_unit[OF assms(4), of ch] channel_unit[OF assms(5), of ch] by simp_all
  with between have "\<bar>?v\<bar> \<le> 1" by linarith
  then have "\<bar>?v\<bar> < float32_overflow"
    by (rule le_less_trans) (simp add: float32_overflow_def)
  then obtain c where c: "float32_round ?v = Some c" using float32_round_finite by blast
  have "color_at P rnd m ch = Some c \<and> float32_round ?v = Some c
     \<and> min (channel (insideColor P) ch) (channel (outsideColor P) ch) \<le> ?v
     \<and> ?v \<le> max (channel (insideColor P) ch) (channel (outsideColor P) ch)"
    using val c between by simp
  then show ?thesis by (intro exI)
qed

lemma stored_of_generate:
  "generate limit P rnd k = Inr (ps, cs, k') \<Longrightarrow>
     stored_positions limit P rnd k = ps \<and> stored_colors limit P rnd k = cs"
  by (simp add: stored_positions_def stored_colors_def)

lemma stored_at:
  assumes "0 \<le> count P" "3 * count P \<le> int limit" "i < nat (count P)" "c < 3"
  shows "stored_positions limit P rnd k ! (3 * i + c) = position_at P rnd (k + 7 * i) i c"
    "stored_colors limit P rnd k ! (3 * i + c) = color_at P rnd (k + 7 * i) c"
proof -
  obtain ps cs where
    gen: "generate limit P rnd k = Inr (ps, cs, k + 7 * nat (count P))"
    and at: "\<And>i c. i < nat (count P) \<Longrightarrow> c < 3 \<Longrightarrow>
               ps ! (3 * i + c) = position_at P rnd (k + 7 * i) i c
             \<and> cs ! (3 * i + c) = color_at P rnd (k + 7 * i) c"
    using generate_returns[OF assms(1,2), of rnd k] by blast
  from stored_of_generate[OF gen] at[OF assms(3,4)]
  show "stored_positions limit P rnd k ! (3 * i + c) = position_at P rnd (k + 7 * i) i c"
    "stored_colors limit P rnd k ! (3 * i + c) = color_at P rnd (k + 7 * i) c"
    by simp_all
qed




text \<open>
  Claim C9, amended. For every valid parameter set that is \<open>within_range\<close>
  (\<open>radius * (1 + randomness)\<close> below \<open>2 ^ 127\<close>, \<open>radius * \<bar>spin\<bar>\<close> and \<open>randomness\<close>
  below \<open>2 ^ 1023\<close>) and every random source with values in \<open>[0, 1)\<close>, the generator
  returns and every number in the two buffers is finite.
\<close>

theorem stored_values_finite:
  assumes "valid_parameters count_max P" "3 * count_max \<le> int limit"
    and "uniform_source rnd" "within_range P"
  shows "\<exists>positions colors k'. generate limit P rnd k = Inr (positions, colors, k')
     \<and> length positions = 3 * nat (count P) \<and> length colors = 3 * nat (count P)
     \<and> (\<forall>n < 3 * nat (count P). \<exists>x c. positions ! n = Some x \<and> colors ! n = Some c)"
proof -
  have cnt: "0 \<le> count P" "3 * count P \<le> int limit" and rad: "0 < radius P"
    and br: "1 \<le> branches P" and rn: "0 \<le> randomness P" and pw: "0 < randomnessPower P"
    and unit: "unit_color (insideColor P)" "unit_color (outsideColor P)"
    using assms(1,2) by (simp_all add: valid_parameters_def)
  note fd = within_range_radius(3)[OF rad rn assms(4)]
  obtain ps cs where
    gen: "generate limit P rnd k = Inr (ps, cs, k + 7 * nat (count P))"
    and len: "length ps = 3 * nat (count P)" "length cs = 3 * nat (count P)"
    and at: "\<And>i c. i < nat (count P) \<Longrightarrow> c < 3 \<Longrightarrow>
               ps ! (3 * i + c) = position_at P rnd (k + 7 * i) i c
             \<and> cs ! (3 * i + c) = color_at P rnd (k + 7 * i) c"
    using generate_returns[OF cnt, of rnd k] by blast
  have "\<exists>x c. ps ! n = Some x \<and> cs ! n = Some c" if "n < 3 * nat (count P)" for n
  proof -
    have i: "n div 3 < nat (count P)" and c: "n mod 3 < 3" and n: "n = 3 * (n div 3) + n mod 3"
      using that by simp_all
    obtain x where "position_at P rnd (k + 7 * (n div 3)) (n div 3) (n mod 3) = Some x"
      using position_at_finite[OF assms(3) br rad rn pw assms(4)] by blast
    moreover obtain v c' where "color_at P rnd (k + 7 * (n div 3)) (n mod 3) = Some c'"
      using color_at_finite[OF assms(3) fd rad unit c] by blast
    ultimately have "ps ! (3 * (n div 3) + n mod 3) = Some x \<and> cs ! (3 * (n div 3) + n mod 3) = Some c'"
      using at[OF i c] by simp
    then show ?thesis using n by metis
  qed
  with gen len show ?thesis by blast
qed



lemma example_within_range: "within_range example_parameters"
  by (simp add: within_range_def example_parameters_def)


lemma variants_valid:
  "valid_parameters 1000000 wide_parameters" "valid_parameters 1000000 fifth_parameters"
  "valid_parameters 1000000 tenth_parameters"
  by (simp_all add: valid_parameters_def wide_parameters_def fifth_parameters_def
      tenth_parameters_def example_parameters_def unit_color_def)

lemma first_position:
  assumes "valid_parameters count_max P" "3 * count_max \<le> int limit"
    and "randomness P = 0" "uniform_source rnd" "finite_double (radius P)" "spin P = 0"
  shows "stored_positions limit P rnd 0 ! 0 = float32_round (rnd 0 * radius P)"
proof -
  have cnt: "0 \<le> count P" "3 * count P \<le> int limit" "0 < nat (count P)"
    and br: "1 \<le> branches P" and pw: "0 < randomnessPower P" and rad: "0 < radius P"
    using assms(1,2) by (simp_all add: valid_parameters_def)
  note u = uniform_draw[OF assms(4), of 0]
  have tw: "radius P * \<bar>spin P\<bar> < 2 ^ 1023" by (simp add: assms(6))
  have "stored_positions limit P rnd 0 ! (3 * 0 + 0) = position_at P rnd (0 + 7 * 0) 0 0"
    by (rule stored_at(1)[OF cnt(1,2,3)]) simp
  then have "stored_positions limit P rnd 0 ! 0 = position_at P rnd 0 0 0" by simp
  also have "\<dots> = float32_store (js_mul (Math_cos (js_add (branchAngle P 0)
                  (js_mul (Some (rnd 0 * radius P)) (Some (spin P)))))
                (Some (rnd 0 * radius P)))"
    by (simp add: position_at_spiral[OF assms(4,5) pw assms(3)] Let_def)
  also have "\<dots> = float32_round (rnd 0 * radius P)"
    unfolding spiral_real(1)[OF br conjunct1[OF u] conjunct2[OF u] rad assms(5) tw, of 0]
    by (simp add: float32_store_Some assms(6))
  finally show ?thesis .
qed



text \<open>
  Claim C9 fails as stated. \<open>wide_parameters\<close> is within the table, with a radius of
  \<open>4 * 10 ^ 39\<close>; the first particle lies at \<open>x = 2 * 10 ^ 39\<close>, beyond the
  single-precision range, and the buffer holds an infinity.
\<close>

theorem finite_values_counterexample:
  "valid_parameters 1000000 wide_parameters \<and> uniform_source half_source
   \<and> length (stored_positions 3000000 wide_parameters half_source 0) = 6
   \<and> stored_positions 3000000 wide_parameters half_source 0 ! 0 = None"
proof -
  have fd: "finite_double (radius wide_parameters)"
    by (simp add: finite_double_def double_overflow_def wide_parameters_def)
  have "stored_positions 3000000 wide_parameters half_source 0 ! 0
      = float32_round (half_source 0 * radius wide_parameters)"
    by (rule first_position[OF variants_valid(1) _ _ half_uniform fd])
       (simp_all add: wide_parameters_def example_parameters_def)
  also have "\<dots> = None"
    by (simp add: float32_round_def float32_overflow_def half_source_def wide_parameters_def)
  finally have inf: "stored_positions 3000000 wide_parameters half_source 0 ! 0 = None" .
  have cnt: "0 \<le> count wide_parameters" "3 * count wide_parameters \<le> int 3000000"
    by (simp_all add: wide_parameters_def example_parameters_def)
  obtain ps cs where "generate 3000000 wide_parameters half_source 0
       = Inr (ps, cs, 0 + 7 * nat (count wide_parameters))"
    "length ps = 3 * nat (count wide_parameters)"
    using generate_returns[OF cnt, of half_source 0] by blast
  then have "length (stored_positions 3000000 wide_parameters half_source 0) = 6"
    using stored_of_generate by (simp add: wide_parameters_def example_parameters_def)
  with inf variants_valid(1) half_uniform show ?thesis by simp
qed






text \<open>
  Claim C9, amended, at the small galaxy: its six positions and six colours.
\<close>

theorem stored_values_finite_witness:
  "valid_parameters 1000000 example_parameters \<and> 3 * 1000000 \<le> int 3000000
   \<and> uniform_source half_source \<and> within_range example_parameters
   \<and> (\<exists>positions colors k'.
         generate 3000000 example_parameters half_source 0 = Inr (positions, colors, k')
       \<and> length positions = 6 \<and> length colors = 6
       \<and> (\<forall>n < 6. \<exists>x c. positions ! n = Some x \<and> colors ! n = Some c))"
proof -
  have lim: "3 * 1000000 \<le> int 3000000" by simp
  from stored_values_finite[OF example_valid lim half_uniform example_within_range, of 0]
  show ?thesis
    using example_valid half_uniform example_within_range
    by (simp add: example_parameters_def)
qed

section \<open>The life cycle\<close>

lemma cleanup_wf:
  assumes "wf_state s"
  shows "cleanup s = (None, detached s)"
proof (cases "points s")
  case None
  then show ?thesis by (simp add: cleanup_def detached_def)
next
  case (Some p)
  with assms obtain gm m where "geometry s = Some gm" "material s = Some m"
    by (auto simp: wf_state_def)
  with Some show ?thesis
    by (simp add: cleanup_def detached_def dispose_def scene_remove_def insert_commute)
qed

lemma generateGalaxy_cases:
  assumes "cleanup s = (None, s1)"
  shows "generateGalaxy limit P rnd s =
     (case generate limit P rnd (random_calls s1 + 4) of
        Inl e \<Rightarrow> (Some e, failed s1)
      | Inr (ps, cs, k) \<Rightarrow> (None, rebuilt P ps cs k s1))"
  using assms
  by (simp add: generateGalaxy_def new_object_def setAttribute_def scene_add_def failed_def
      rebuilt_def Let_def split: sum.splits prod.splits)

lemma wf_detached: "wf_state s \<Longrightarrow> wf_state (detached s)"
  by (auto simp: wf_state_def detached_def split: option.splits)

lemma drawables_detached: "wf_state s \<Longrightarrow> drawables (detached s) = []"
  by (auto simp: wf_state_def detached_def drawables_def filter_empty_conv split: option.splits)

lemma wf_failed: "wf_state s \<Longrightarrow> drawables s = [] \<Longrightarrow> wf_state (failed s)"
  apply (auto simp: wf_state_def failed_def drawables_def filter_empty_conv is_Points_def)
  done

lemma is_Points_iff: "is_Points ob \<longleftrightarrow> (\<exists>gm m. ob = Some (Points gm m))"
  by (auto simp: is_Points_def split: option.splits object.splits)

lemma no_drawables_iff:
  "drawables s = [] \<longleftrightarrow> (\<forall>x \<in> set (children s). \<not> is_Points (heap s x))"
  by (simp add: drawables_def filter_empty_conv)

lemma wf_rebuilt:
  assumes "wf_state s" "drawables s = []"
  shows "wf_state (rebuilt P ps cs k s)"
proof -
  let ?n = "next_ref s"
  have fresh: "\<And>x. x \<in> set (children s) \<Longrightarrow> x < ?n"
    and none: "\<And>x. x \<in> set (children s) \<Longrightarrow> \<not> is_Points (heap s x)"
    and dist: "distinct (children s)"
    and top: "\<And>x. ?n \<le> x \<Longrightarrow> heap s x = None"
    using assms by (auto simp: wf_state_def no_drawables_iff)
  have notin: "Suc (Suc ?n) \<notin> set (children s)" using fresh by fastforce
  then have ch: "children (rebuilt P ps cs k s) = children s @ [Suc (Suc ?n)]"
    by (simp add: rebuilt_def remove1_idem)
  have old: "heap (rebuilt P ps cs k s) x = heap s x" if "x \<in> set (children s)" for x
    using fresh[OF that] by (simp add: rebuilt_def)
  show ?thesis
    unfolding wf_state_def ch
    using fresh none dist top notin old
    by (auto simp: rebuilt_def less_Suc_eq is_Points_iff)
qed

lemma drawables_rebuilt:
  assumes "wf_state s" "drawables s = []"
  shows "drawables (rebuilt P ps cs k s) = [Suc (Suc (next_ref s))]"
proof -
  let ?n = "next_ref s"
  have fresh: "\<And>x. x \<in> set (children s) \<Longrightarrow> x < ?n"
    and none: "\<And>x. x \<in> set (children s) \<Longrightarrow> \<not> is_Points (heap s x)"
    using assms by (auto simp: wf_state_def no_drawables_iff)
  have notin: "Suc (Suc ?n) \<notin> set (children s)" using fresh by fastforce
  then have ch: "children (rebuilt P ps cs k s) = children s @ [Suc (Suc ?n)]"
    by (simp add: rebuilt_def remove1_idem)
  have old: "heap (rebuilt P ps cs k s) x = heap s x" if "x \<in> set (children s)" for x
    using fresh[OF that] by (simp add: rebuilt_def)
  have "filter (\<lambda>x. is_Points (heap (rebuilt P ps cs k s) x)) (children s) = []"
    using none old by (simp add: filter_empty_conv)
  moreover have "is_Points (heap (rebuilt P ps cs k s) (Suc (Suc ?n)))"
    by (simp add: rebuilt_def is_Points_def)
  ultimately show ?thesis by (simp add: drawables_def ch)
qed

lemma attribute_length_rebuilt:
  "attribute_length (rebuilt P ps cs k s) (Suc (Suc (next_ref s))) ''position'' = Some (length ps)"
  "attribute_length (rebuilt P ps cs k s) (Suc (Suc (next_ref s))) ''color'' = Some (length cs)"
  by (simp_all add: attribute_length_def rebuilt_def)

lemma wf_init: "wf_state init_state"
  by (simp add: wf_state_def init_state_def)

lemma wf_add_camera: "wf_state s \<Longrightarrow> wf_state (add_camera s)"
proof -
  assume wf: "wf_state s"
  then have fresh: "\<And>x. x \<in> set (children s) \<Longrightarrow> x < next_ref s"
    by (simp add: wf_state_def)
  then have "next_ref s \<notin> set (children s)" by fastforce
  then have ch: "children (add_camera s) = children s @ [next_ref s]"
    by (simp add: add_camera_def new_object_def scene_add_def remove1_idem)
  show ?thesis
    unfolding wf_state_def ch
    using wf \<open>next_ref s \<notin> set (children s)\<close>
    by (auto simp: wf_state_def add_camera_def new_object_def scene_add_def is_Points_def
        less_Suc_eq)
qed

lemma drawables_add_camera: "wf_state s \<Longrightarrow> drawables (add_camera s) = drawables s"
proof -
  assume wf: "wf_state s"
  then have fresh: "\<And>x. x \<in> set (children s) \<Longrightarrow> x < next_ref s"
    by (simp add: wf_state_def)
  then have notin: "next_ref s \<notin> set (children s)" by fastforce
  then have ch: "children (add_camera s) = children s @ [next_ref s]"
    by (simp add: add_camera_def new_object_def scene_add_def remove1_idem)
  have "filter (\<lambda>x. is_Points (heap (add_camera s) x)) (children s)
      = filter (\<lambda>x. is_Points (heap s x)) (children s)"
    using notin by (intro filter_cong) (auto simp: add_camera_def new_object_def scene_add_def)
  then show ?thesis
    by (simp add: drawables_def ch) (simp add: add_camera_def new_object_def scene_add_def is_Points_def)
qed

lemma wf_generateGalaxy: "wf_state s \<Longrightarrow> wf_state (snd (generateGalaxy limit P rnd s))"
  using wf_failed[OF wf_detached drawables_detached, of s]
    wf_rebuilt[OF wf_detached drawables_detached, of s]
  by (simp add: generateGalaxy_cases[OF cleanup_wf] split: sum.splits prod.splits)

lemma reachable_wf: "reachable s \<Longrightarrow> wf_state s"
  by (induction rule: reachable.induct) (simp_all add: wf_init wf_generateGalaxy wf_add_camera)

lemma wf_drawables_le1: "wf_state s \<Longrightarrow> length (drawables s) \<le> 1"
proof -
  assume wf: "wf_state s"
  have sub: "set (drawables s) \<subseteq> set_option (points s)"
    using wf by (auto simp: wf_state_def drawables_def)
  have "distinct (drawables s)" using wf by (simp add: wf_state_def drawables_def)
  then have "length (drawables s) = card (set (drawables s))"
    by (simp add: distinct_card)
  also have "\<dots> \<le> card (set_option (points s))"
    using sub by (intro card_mono) (cases "points s", simp_all)
  also have "\<dots> \<le> 1" by (cases "points s") simp_all
  finally show ?thesis .
qed

lemma drawables_failed: "wf_state s \<Longrightarrow> drawables (failed s) = drawables s"
proof -
  assume wf: "wf_state s"
  then have "\<And>x. x \<in> set (children s) \<Longrightarrow> x \<noteq> next_ref s"
    by (fastforce simp: wf_state_def)
  then have "filter (\<lambda>x. is_Points (heap (failed s) x)) (children s)
      = filter (\<lambda>x. is_Points (heap s x)) (children s)"
    by (intro filter_cong) (auto simp: failed_def)
  then show ?thesis by (simp add: drawables_def) (simp add: failed_def)
qed

lemma generateGalaxy_wf:
  assumes "wf_state s"
  shows "generateGalaxy limit P rnd s =
     (case generate limit P rnd (random_calls s + 4) of
        Inl e \<Rightarrow> (Some e, failed (detached s))
      | Inr (ps, cs, k) \<Rightarrow> (None, rebuilt P ps cs k (detached s)))"
proof -
  have "random_calls (detached s) = random_calls s"
    by (simp add: detached_def split: option.splits)
  with generateGalaxy_cases[OF cleanup_wf[OF assms], of limit P rnd] show ?thesis by simp
qed

lemma detached_removes:
  assumes "wf_state s" "p \<in> set (drawables s)"
  shows "p \<notin> set (children (detached s))" "parts s p \<subseteq> disposed (detached s)"
    "p < next_ref s"
proof -
  from assms have pts: "points s = Some p" and dist: "distinct (children s)"
    and inch: "p \<in> set (children s)"
    by (auto simp: wf_state_def drawables_def)
  then show "p \<notin> set (children (detached s))" by (simp add: detached_def)
  from assms(1) inch show "p < next_ref s" by (simp add: wf_state_def)
  from assms(2) obtain gm m where obj: "heap s p = Some (Points gm m)"
    by (auto simp: drawables_def is_Points_iff)
  with assms(1) inch have "geometry s = Some gm" "material s = Some m"
    by (simp_all add: wf_state_def)
  with pts obj show "parts s p \<subseteq> disposed (detached s)"
    by (simp add: parts_def detached_def)
qed

lemma generateGalaxy_removes:
  assumes "wf_state s" "p \<in> set (drawables s)" "generateGalaxy limit P rnd s = (e, s')"
  shows "p \<notin> set (children s') \<and> parts s p \<subseteq> disposed s'"
proof -
  note rm = detached_removes[OF assms(1,2)]
  have nr: "next_ref (detached s) = next_ref s"
    by (simp add: detached_def split: option.splits)
  show ?thesis
  proof (cases "generate limit P rnd (random_calls s + 4)")
    case (Inl err)
    with assms(3) generateGalaxy_wf[OF assms(1), of limit P rnd]
    have "s' = failed (detached s)" by simp
    with rm show ?thesis by (simp add: failed_def)
  next
    case (Inr res)
    obtain ps cs k where "res = (ps, cs, k)" by (cases res)
    with Inr assms(3) generateGalaxy_wf[OF assms(1), of limit P rnd]
    have "s' = rebuilt P ps cs k (detached s)" by simp
    with rm nr show ?thesis by (auto simp: rebuilt_def dest: notin_set_remove1)
  qed
qed

lemma generateGalaxy_success:
  assumes "wf_state s" "generateGalaxy limit P rnd s = (None, s')"
  shows "\<exists>p. drawables s' = [p] \<and> points s' = Some p
     \<and> attribute_length s' p ''position'' = Some (nat (3 * count P))
     \<and> attribute_length s' p ''color'' = Some (nat (3 * count P))"
proof (cases "generate limit P rnd (random_calls s + 4)")
  case (Inl err)
  with assms(2) generateGalaxy_wf[OF assms(1), of limit P rnd] show ?thesis by simp
next
  case (Inr res)
  obtain ps cs k where res: "res = (ps, cs, k)" by (cases res)
  with Inr assms(2) generateGalaxy_wf[OF assms(1), of limit P rnd]
  have s': "s' = rebuilt P ps cs k (detached s)" by simp
  have ok: "0 \<le> count P" "3 * count P \<le> int limit"
    using Inr generate_fails[of P limit rnd "random_calls s + 4"] by force+
  from generate_returns[OF ok, of rnd "random_calls s + 4"] Inr res
  have len: "length ps = 3 * nat (count P)" "length cs = 3 * nat (count P)" by auto
  have n3: "3 * nat (count P) = nat (3 * count P)" using ok(1) by (simp add: nat_mult_distrib)
  let ?p = "Suc (Suc (next_ref (detached s)))"
  have "drawables s' = [?p]"
    unfolding s' by (rule drawables_rebuilt[OF wf_detached[OF assms(1)] drawables_detached[OF assms(1)]])
  moreover have "points s' = Some ?p" by (simp add: s' rebuilt_def)
  moreover have "attribute_length s' ?p ''position'' = Some (nat (3 * count P))"
    "attribute_length s' ?p ''color'' = Some (nat (3 * count P))"
    unfolding s' by (simp_all add: attribute_length_rebuilt len n3)
  ultimately show ?thesis by blast
qed

lemma generateGalaxy_failure:
  assumes "wf_state s" "generateGalaxy limit P rnd s = (Some e, s')"
  shows "drawables s' = [] \<and> points s' = points s \<and> e = RangeError
     \<and> generate limit P rnd (random_calls s + 4) = Inl RangeError"
proof (cases "generate limit P rnd (random_calls s + 4)")
  case (Inl err)
  with assms(2) generateGalaxy_wf[OF assms(1), of limit P rnd]
  have s': "s' = failed (detached s)" and e: "e = err" by simp_all
  have "err = RangeError"
    using Inl by (auto simp: generate_def new_Float32Array_def split: if_splits sum.splits)
  moreover have "drawables s' = []"
    unfolding s' using drawables_failed[OF wf_detached[OF assms(1)]] drawables_detached[OF assms(1)]
    by simp
  moreover have "points s' = points s"
    by (simp add: s' failed_def detached_def split: option.splits)
  ultimately show ?thesis using Inl e by simp
next
  case (Inr res)
  obtain ps cs k where "res = (ps, cs, k)" by (cases res)
  with Inr assms(2) generateGalaxy_wf[OF assms(1), of limit P rnd] show ?thesis by simp
qed

lemma generateGalaxy_returns:
  assumes "wf_state s" "0 \<le> count P" "3 * count P \<le> int limit"
  shows "fst (generateGalaxy limit P rnd s) = None"
  using generate_returns[OF assms(2,3), of rnd "random_calls s + 4"]
    generateGalaxy_wf[OF assms(1), of limit P rnd]
  by auto

lemma generateGalaxy_throws:
  assumes "wf_state s" "count P < 0 \<or> int limit < 3 * count P"
  shows "fst (generateGalaxy limit P rnd s) = Some RangeError"
  using generate_fails[OF assms(2), of rnd "random_calls s + 4"]
    generateGalaxy_wf[OF assms(1), of limit P rnd]
  by simp

lemma generateGalaxy_handles:
  assumes "wf_state s" "points s = Some p" "generateGalaxy limit P rnd s = (e, s')"
  shows "p \<notin> set (children s')"
    "set_option (geometry s) \<union> set_option (material s) \<subseteq> disposed s'"
proof -
  from assms(1,2) have dist: "distinct (children s)" and low: "p < next_ref s"
    by (simp_all add: wf_state_def)
  have det: "p \<notin> set (children (detached s))"
    "set_option (geometry s) \<union> set_option (material s) \<subseteq> disposed (detached s)"
    "next_ref (detached s) = next_ref s"
    using assms(2) dist by (auto simp: detached_def)
  have "s' = failed (detached s) \<or> (\<exists>ps cs k. s' = rebuilt P ps cs k (detached s))"
    using assms(3) generateGalaxy_wf[OF assms(1), of limit P rnd]
    by (auto split: sum.splits)
  then show "p \<notin> set (children s')"
    "set_option (geometry s) \<union> set_option (material s) \<subseteq> disposed s'"
    using det low by (auto simp: failed_def rebuilt_def dest: notin_set_remove1)
qed

lemma reachable_active: "reachable active_state"
  unfolding active_state_def by (rule reachable.regenerate[OF reachable.init])

lemma active_state_drawable:
  "drawables active_state = [2]" "points active_state = Some 2"
proof -
  have ok: "0 \<le> count example_parameters" "3 * count example_parameters \<le> int 3000000"
    by (simp_all add: example_parameters_def)
  obtain ps cs k where
    "generate 3000000 example_parameters half_source (random_calls init_state + 4) = Inr (ps, cs, k)"
    using generate_returns[OF ok, of half_source "random_calls init_state + 4"] by blast
  then have st: "active_state = rebuilt example_parameters ps cs k (detached init_state)"
    using generateGalaxy_wf[OF wf_init, of 3000000 example_parameters half_source]
    by (simp add: active_state_def)
  have nr: "next_ref (detached init_state) = 0"
    by (simp add: detached_def init_state_def)
  show "drawables active_state = [2]"
    unfolding st
    using drawables_rebuilt[OF wf_detached[OF wf_init] drawables_detached[OF wf_init]]
    by (simp add: nr numeral_2_eq_2)
  show "points active_state = Some 2"
    by (simp add: st rebuilt_def nr numeral_2_eq_2)
qed

lemma second_call:
  "generateGalaxy 3000000 (example_parameters\<lparr>count := 1\<rparr>) half_source active_state
     = (None, resized_state)"
proof -
  have "fst (generateGalaxy 3000000 (example_parameters\<lparr>count := 1\<rparr>) half_source active_state)
      = None"
    by (rule generateGalaxy_returns[OF reachable_wf[OF reachable_active]]) simp_all
  then show ?thesis
    by (simp add: prod_eq_iff active_state_def resized_state_def)
qed

lemma huge_fails: "count huge_parameters < 0 \<or> int 3000000 < 3 * count huge_parameters"
  by (simp add: huge_parameters_def)

section \<open>Clean-up, generation and failure\<close>

text \<open>
  Claim C1 fails as stated. The galaxy of \<open>active_state\<close> is attached; a call whose
  allocation throws leaves the scene without any galaxy: the clean-up has run before the
  allocation.
\<close>

theorem regenerate_failure_counterexample:
  "points active_state = Some 2 \<and> drawables active_state = [2]
   \<and> fst (generateGalaxy 3000000 huge_parameters half_source active_state) = Some RangeError
   \<and> drawables (snd (generateGalaxy 3000000 huge_parameters half_source active_state)) = []"
proof -
  let ?res = "generateGalaxy 3000000 huge_parameters half_source active_state"
  have wf: "wf_state active_state" by (rule reachable_wf[OF reachable_active])
  have err: "fst ?res = Some RangeError"
    by (rule generateGalaxy_throws[OF wf huge_fails])
  then have "?res = (Some RangeError, snd ?res)" by (simp add: prod_eq_iff)
  from generateGalaxy_failure[OF wf this] have "drawables (snd ?res) = []" by simp
  with err active_state_drawable show ?thesis by simp
qed

text \<open>
  Claim C1, amended. In every reachable state with a galaxy, a call first disposes the
  geometry and the material the handles refer to and detaches the old drawable, and only
  then generates. So the old drawable is detached whatever happens: when the call throws,
  no drawable is attached and \<open>points\<close> still refers to the detached one; when it
  returns, exactly one new drawable is attached.
\<close>

theorem cleanup_precedes_generation:
  assumes "reachable s" "points s = Some p" "generateGalaxy limit P rnd s = (e, s')"
  shows "p \<notin> set (children s')
     \<and> set_option (geometry s) \<union> set_option (material s) \<subseteq> disposed s'
     \<and> (e \<noteq> None \<longrightarrow> drawables s' = [] \<and> points s' = Some p)
     \<and> (e = None \<longrightarrow> (\<exists>q. q \<noteq> p \<and> drawables s' = [q] \<and> points s' = Some q))"
proof -
  have wf: "wf_state s" by (rule reachable_wf[OF assms(1)])
  note old = generateGalaxy_handles[OF wf assms(2,3)]
  have "drawables s' = [] \<and> points s' = Some p" if "e \<noteq> None"
  proof -
    from that obtain err where "e = Some err" by blast
    with generateGalaxy_failure[OF wf, of limit P rnd err s'] assms(2,3) show ?thesis by simp
  qed
  moreover have "\<exists>q. q \<noteq> p \<and> drawables s' = [q] \<and> points s' = Some q" if "e = None"
  proof -
    from generateGalaxy_success[OF wf, of limit P rnd s'] assms(3) that
    obtain q where q: "drawables s' = [q]" "points s' = Some q" by blast
    then have "q \<in> set (children s')" 
      by (metis drawables_def filter_is_subset list.set_intros(1) subsetD)
    with old(1) have "q \<noteq> p" by blast
    with q show ?thesis by blast
  qed
  ultimately show ?thesis using old by blast
qed

text \<open>
  Claim C1, amended, at a call that throws and at a call that returns, both made in
  \<open>active_state\<close>.
\<close>

theorem cleanup_precedes_generation_witness:
  "reachable active_state \<and> points active_state = Some 2
   \<and> generateGalaxy 3000000 huge_parameters half_source active_state
       = (Some RangeError, snd (generateGalaxy 3000000 huge_parameters half_source active_state))
   \<and> 2 \<notin> set (children (snd (generateGalaxy 3000000 huge_parameters half_source active_state)))
   \<and> drawables (snd (generateGalaxy 3000000 huge_parameters half_source active_state)) = []
   \<and> points (snd (generateGalaxy 3000000 huge_parameters half_source active_state)) = Some 2
   \<and> generateGalaxy 3000000 (example_parameters\<lparr>count := 1\<rparr>) half_source active_state
       = (None, resized_state)
   \<and> 2 \<notin> set (children resized_state)
   \<and> (\<exists>q. q \<noteq> 2 \<and> drawables resized_state = [q] \<and> points resized_state = Some q)"
proof -
  let ?res = "generateGalaxy 3000000 huge_parameters half_source active_state"
  have "fst ?res = Some RangeError"
    by (rule generateGalaxy_throws[OF reachable_wf[OF reachable_active] huge_fails])
  then have call: "?res = (Some RangeError, snd ?res)" by (simp add: prod_eq_iff)
  from cleanup_precedes_generation[OF reachable_active active_state_drawable(2) call]
  have throws: "2 \<notin> set (children (snd ?res))" "drawables (snd ?res) = []"
    "points (snd ?res) = Some 2"
    by simp_all
  from cleanup_precedes_generation[OF reachable_active active_state_drawable(2) second_call]
  have returns: "2 \<notin> set (children resized_state)"
    "\<exists>q. q \<noteq> 2 \<and> drawables resized_state = [q] \<and> points resized_state = Some q"
    by simp_all
  show ?thesis
    using reachable_active active_state_drawable(2) call throws second_call returns by blast
qed

text \<open>
  Claim C8. Every reachable state has at most one drawable attached; every call removes
  the drawable that was attached and disposes its geometry and material; and after two
  calls in sequence, the second of which returns, the one attached drawable has buffers
  of three times the count of the second call.
\<close>

theorem single_active_drawable:
  assumes "reachable s"
  shows "length (drawables s) \<le> 1
     \<and> (\<forall>limit P rnd e s'. generateGalaxy limit P rnd s = (e, s') \<longrightarrow>
          (\<forall>p \<in> set (drawables s). p \<notin> set (children s') \<and> parts s p \<subseteq> disposed s'))
     \<and> (\<forall>limit1 P1 rnd1 e1 s1 limit2 P2 rnd2 s2.
          generateGalaxy limit1 P1 rnd1 s = (e1, s1) \<longrightarrow>
          generateGalaxy limit2 P2 rnd2 s1 = (None, s2) \<longrightarrow>
          (\<exists>p. drawables s2 = [p]
             \<and> attribute_length s2 p ''position'' = Some (nat (3 * count P2))
             \<and> attribute_length s2 p ''color'' = Some (nat (3 * count P2))))"
proof (intro conjI allI impI ballI)
  have wf: "wf_state s" by (rule reachable_wf[OF assms])
  show "length (drawables s) \<le> 1" by (rule wf_drawables_le1[OF wf])
  show "p \<notin> set (children s')" "parts s p \<subseteq> disposed s'"
    if "generateGalaxy limit P rnd s = (e, s')" "p \<in> set (drawables s)"
    for limit P rnd e s' p
    using generateGalaxy_removes[OF wf that(2,1)] by simp_all
  show "\<exists>p. drawables s2 = [p]
             \<and> attribute_length s2 p ''position'' = Some (nat (3 * count P2))
             \<and> attribute_length s2 p ''color'' = Some (nat (3 * count P2))"
    if first: "generateGalaxy limit1 P1 rnd1 s = (e1, s1)"
      and second: "generateGalaxy limit2 P2 rnd2 s1 = (None, s2)"
    for limit1 P1 rnd1 e1 s1 limit2 P2 rnd2 s2
  proof -
    have "s1 = snd (generateGalaxy limit1 P1 rnd1 s)" using first by simp
    then have "wf_state s1" using wf_generateGalaxy[OF wf] by simp
    from generateGalaxy_success[OF this second] show ?thesis by blast
  qed
qed

text \<open>
  Claim C8 at two calls from the initial state, the first with count 2 and the second
  with count 1.
\<close>

theorem single_active_drawable_witness:
  "reachable init_state
   \<and> generateGalaxy 3000000 example_parameters half_source init_state = (None, active_state)
   \<and> generateGalaxy 3000000 (example_parameters\<lparr>count := 1\<rparr>) half_source active_state
        = (None, resized_state)
   \<and> (\<exists>p. drawables resized_state = [p]
          \<and> attribute_length resized_state p ''position'' = Some 3
          \<and> attribute_length resized_state p ''color'' = Some 3)
   \<and> reachable active_state \<and> 2 \<in> set (drawables active_state)
   \<and> length (drawables active_state) \<le> 1
   \<and> 2 \<notin> set (children resized_state)
   \<and> parts active_state 2 \<subseteq> disposed resized_state"
proof -
  have wf: "wf_state active_state" by (rule reachable_wf[OF reachable_active])
  have "fst (generateGalaxy 3000000 example_parameters half_source init_state) = None"
    by (rule generateGalaxy_returns[OF wf_init]) (simp_all add: example_parameters_def)
  then have first:
    "generateGalaxy 3000000 example_parameters half_source init_state = (None, active_state)"
    by (simp add: prod_eq_iff active_state_def)
  note second = second_call
  have mem: "2 \<in> set (drawables active_state)" by (simp add: active_state_drawable)
  from single_active_drawable[OF reachable.init] first second
  have "\<exists>p. drawables resized_state = [p]
          \<and> attribute_length resized_state p ''position''
               = Some (nat (3 * count (example_parameters\<lparr>count := 1\<rparr>)))
          \<and> attribute_length resized_state p ''color''
               = Some (nat (3 * count (example_parameters\<lparr>count := 1\<rparr>)))"
    by blast
  then have sized: "\<exists>p. drawables resized_state = [p]
          \<and> attribute_length resized_state p ''position'' = Some 3
          \<and> attribute_length resized_state p ''color'' = Some 3"
    by simp
  from single_active_drawable[OF reachable_active] second mem
  have "length (drawables active_state) \<le> 1" "2 \<notin> set (children resized_state)"
    "parts active_state 2 \<subseteq> disposed resized_state"
    by blast+
  with reachable.init first second sized reachable_active mem show ?thesis by blast
qed

section \<open>No validation\<close>

text \<open>
  Claim C2 fails as stated. \<open>out_of_range_parameters\<close> violates the table in almost every
  field, and the call returns without an exception, with both buffers allocated.
\<close>

theorem no_validation_counterexample:
  "\<not> valid_parameters 1000000 out_of_range_parameters
   \<and> fst (generateGalaxy 3000000 out_of_range_parameters half_source init_state) = None
   \<and> attribute_length (snd (generateGalaxy 3000000 out_of_range_parameters half_source init_state))
        2 ''position'' = Some 3
   \<and> attribute_length (snd (generateGalaxy 3000000 out_of_range_parameters half_source init_state))
        2 ''color'' = Some 3"
proof -
  let ?res = "generateGalaxy 3000000 out_of_range_parameters half_source init_state"
  have inv: "\<not> valid_parameters 1000000 out_of_range_parameters"
    by (simp add: valid_parameters_def out_of_range_parameters_def)
  have ok: "0 \<le> count out_of_range_parameters"
    "3 * count out_of_range_parameters \<le> int 3000000"
    by (simp_all add: out_of_range_parameters_def)
  have ret: "fst ?res = None" by (rule generateGalaxy_returns[OF wf_init ok])
  obtain ps cs where gen:
    "generate 3000000 out_of_range_parameters half_source (random_calls init_state + 4)
       = Inr (ps, cs, random_calls init_state + 4 + 7 * nat (count out_of_range_parameters))"
    and len: "length ps = 3 * nat (count out_of_range_parameters)"
      "length cs = 3 * nat (count out_of_range_parameters)"
    using generate_returns[OF ok, of half_source "random_calls init_state + 4"] by blast
  have st: "snd ?res = rebuilt out_of_range_parameters ps cs
      (random_calls init_state + 4 + 7 * nat (count out_of_range_parameters)) (detached init_state)"
    using generateGalaxy_wf[OF wf_init, of 3000000 out_of_range_parameters half_source] gen
    by simp
  have nr: "Suc (Suc (next_ref (detached init_state))) = 2"
    by (simp add: detached_def init_state_def)
  have "attribute_length (snd ?res) 2 ''position'' = Some 3"
    "attribute_length (snd ?res) 2 ''color'' = Some 3"
    using attribute_length_rebuilt[of out_of_range_parameters ps cs _ "detached init_state"] len
    unfolding st nr by (simp_all add: out_of_range_parameters_def)
  with inv ret show ?thesis by simp
qed

text \<open>
  Claim C2, amended. The generator validates nothing. It throws exactly when the buffer
  length \<open>3 * count\<close> is negative or beyond what the host can allocate, and the exception
  is the allocation's \<open>RangeError\<close>; in every other case both buffers are allocated with
  that length and every stored number is computed from the parameters as given, without
  clamping.
\<close>

theorem generate_checks_only_length:
  "(count P < 0 \<or> int limit < 3 * count P \<longrightarrow> generate limit P rnd k = Inl RangeError)
   \<and> (0 \<le> count P \<and> 3 * count P \<le> int limit \<longrightarrow>
        (\<exists>positions colors.
           generate limit P rnd k = Inr (positions, colors, k + 7 * nat (count P))
         \<and> length positions = nat (3 * count P) \<and> length colors = nat (3 * count P)
         \<and> (\<forall>i < nat (count P). \<forall>c < 3.
               positions ! (3 * i + c) = position_at P rnd (k + 7 * i) i c
             \<and> colors ! (3 * i + c) = color_at P rnd (k + 7 * i) c)))"
proof (intro conjI impI)
  assume "count P < 0 \<or> int limit < 3 * count P"
  then show "generate limit P rnd k = Inl RangeError" by (rule generate_fails)
next
  assume ok: "0 \<le> count P \<and> 3 * count P \<le> int limit"
  then have n3: "3 * nat (count P) = nat (3 * count P)" by (simp add: nat_mult_distrib)
  from ok generate_returns[of P limit rnd k]
  show "\<exists>positions colors.
           generate limit P rnd k = Inr (positions, colors, k + 7 * nat (count P))
         \<and> length positions = nat (3 * count P) \<and> length colors = nat (3 * count P)
         \<and> (\<forall>i < nat (count P). \<forall>c < 3.
               positions ! (3 * i + c) = position_at P rnd (k + 7 * i) i c
             \<and> colors ! (3 * i + c) = color_at P rnd (k + 7 * i) c)"
    unfolding n3 by blast
qed

text \<open>
  Claim C2, amended, at a count beyond the host's limit and at the out-of-range parameter
  set: the red channel of its particle is \<open>3 / 2\<close>, the blue one \<open>- 1 / 2\<close>.
\<close>

theorem generate_checks_only_length_witness:
  "(count huge_parameters < 0 \<or> int 3000000 < 3 * count huge_parameters)
   \<and> generate 3000000 huge_parameters half_source 0 = Inl RangeError
   \<and> 0 \<le> count out_of_range_parameters \<and> 3 * count out_of_range_parameters \<le> int 3000000
   \<and> \<not> valid_parameters 1000000 out_of_range_parameters
   \<and> (\<exists>positions colors.
         generate 3000000 out_of_range_parameters half_source 0 = Inr (positions, colors, 7)
       \<and> length positions = 3 \<and> length colors = 3
       \<and> colors ! 0 = Some (3 / 2) \<and> colors ! 1 = Some 0 \<and> colors ! 2 = Some (- 1 / 2))"
proof -
  have ok: "0 \<le> count out_of_range_parameters \<and> 3 * count out_of_range_parameters \<le> int 3000000"
    by (simp add: out_of_range_parameters_def)
  have inv: "\<not> valid_parameters 1000000 out_of_range_parameters"
    by (simp add: valid_parameters_def out_of_range_parameters_def)
  from generate_checks_only_length[of huge_parameters 3000000 half_source 0] huge_fails
  have fails: "generate 3000000 huge_parameters half_source 0 = Inl RangeError" by blast
  from generate_checks_only_length[of out_of_range_parameters 3000000 half_source 0] ok
  obtain ps cs where
    gen: "generate 3000000 out_of_range_parameters half_source 0
            = Inr (ps, cs, 0 + 7 * nat (count out_of_range_parameters))"
    and len: "length ps = nat (3 * count out_of_range_parameters)"
      "length cs = nat (3 * count out_of_range_parameters)"
    and at: "\<And>i c. i < nat (count out_of_range_parameters) \<Longrightarrow> c < 3 \<Longrightarrow>
        cs ! (3 * i + c) = color_at out_of_range_parameters half_source (0 + 7 * i) c"
    by blast
  have slot: "cs ! n = color_at out_of_range_parameters half_source 0 n" if "n < 3" for n
    using at[of 0 n] that by (simp add: out_of_range_parameters_def)
  have "cs ! 0 = Some (3 / 2)" "cs ! 1 = Some 0" "cs ! 2 = Some (- 1 / 2)"
    using slot[of 0] slot[of 1] slot[of 2]
    by (simp_all add: color_at_def radius_at_def lerp1_def js_div_def js_mul_def js_add_def
        js_sub_def js_lift2_def js_double_def double_overflow_def float32_store_def
        float32_round_three_halves float32_round_minus_half float32_round_zero
        out_of_range_parameters_def half_source_def)
  moreover have "generate 3000000 out_of_range_parameters half_source 0 = Inr (ps, cs, 7)"
    "length ps = 3" "length cs = 3"
    using gen len by (simp_all add: out_of_range_parameters_def)
  ultimately show ?thesis using huge_fails fails ok inv by blast
qed

end
